theory Spec2Isabelle
  imports Main
begin

section \<open>JavaScript values\<close>

text \<open>
  The webhook route of \<^verbatim>\<open>src/routes/webhooks/stripe.js\<close> works on the value that
  \<^verbatim>\<open>stripe.webhooks.constructEvent\<close> returns, which is parsed JSON. A value is therefore
  one of the JSON forms, or \<^verbatim>\<open>undefined\<close> (what reading a missing property gives).
  A string is its list of UTF-8 bytes. A number is kept as the text that
  \<^verbatim>\<open>Number.prototype.toString\<close> gives for it (\<^verbatim>\<open>5000\<close> as \<open>''5000''\<close>, \<^verbatim>\<open>0.5\<close> as
  \<open>''0.5''\<close>, \<^verbatim>\<open>1e21\<close> as \<open>''1e+21''\<close>): the route never computes with a number, it
  only prints it, and two numbers with the same text differ at most as zero and negative
  zero do. An object is the list of its own properties; \<open>map_of\<close> reads it.
\<close>

datatype jsval =
    JUndefined
  | JNull
  | JBool bool
  | JNum string
  | JStr string
  | JArr "jsval list"
  | JObj "(string \<times> jsval) list"

text \<open>
  What a \<^verbatim>\<open>throw\<close> or a \<^verbatim>\<open>next(err)\<close> carries. \<open>TypeError\<close> is raised by the
  language itself (reading a property of \<^verbatim>\<open>null\<close>, converting an object to a string);
  \<open>StripeError\<close> stands for any error object the payment SDK throws, \<open>HttpError\<close> for
  any error the body parser raises. Each has a \<^verbatim>\<open>message\<close>.
\<close>

datatype js_error = TypeError string | StripeError string | HttpError string

fun message :: "js_error \<Rightarrow> string" where
  "message (TypeError m) = m"
| "message (StripeError m) = m"
| "message (HttpError m) = m"

definition and_then :: "js_error + 'a \<Rightarrow> ('a \<Rightarrow> js_error + 'b) \<Rightarrow> js_error + 'b" where
  "and_then r f = (case r of Inl e \<Rightarrow> Inl e | Inr x \<Rightarrow> f x)"

definition nullish :: "jsval \<Rightarrow> bool" where
  "nullish v = (v = JUndefined \<or> v = JNull)"

definition cannot_read :: "string \<Rightarrow> string \<Rightarrow> string" where
  "cannot_read what k =
     ''Cannot read properties of '' @ what @ '' (reading '' @ [CHR 0x27] @ k @ [CHR 0x27] @ '')''"

text \<open>
  Property read \<^verbatim>\<open>v.k\<close>. It throws on \<^verbatim>\<open>undefined\<close> and \<^verbatim>\<open>null\<close>. On an object it
  gives the own property, or \<^verbatim>\<open>undefined\<close>; on a string, number, boolean or array it
  gives \<^verbatim>\<open>undefined\<close>: the route reads only the names \<^verbatim>\<open>type\<close>, \<^verbatim>\<open>data\<close>,
  \<^verbatim>\<open>object\<close>, \<^verbatim>\<open>id\<close>, \<^verbatim>\<open>customer_email\<close>, \<^verbatim>\<open>amount_total\<close>, \<^verbatim>\<open>currency\<close>,
  \<^verbatim>\<open>metadata\<close>, \<^verbatim>\<open>amount\<close>, \<^verbatim>\<open>last_payment_error\<close>, \<^verbatim>\<open>message\<close>, \<^verbatim>\<open>customer\<close>,
  \<^verbatim>\<open>status\<close>, \<^verbatim>\<open>amount_paid\<close> and \<^verbatim>\<open>amount_due\<close>, none of which a built-in prototype
  defines.
\<close>

fun get_prop :: "jsval \<Rightarrow> string \<Rightarrow> js_error + jsval" where
  "get_prop JUndefined k = Inl (TypeError (cannot_read ''undefined'' k))"
| "get_prop JNull k = Inl (TypeError (cannot_read ''null'' k))"
| "get_prop (JObj kvs) k = Inr (case map_of kvs k of None \<Rightarrow> JUndefined | Some v \<Rightarrow> v)"
| "get_prop (JBool b) k = Inr JUndefined"
| "get_prop (JNum n) k = Inr JUndefined"
| "get_prop (JStr s) k = Inr JUndefined"
| "get_prop (JArr vs) k = Inr JUndefined"

text \<open>Optional chaining \<^verbatim>\<open>v?.k\<close>.\<close>

definition opt_chain :: "jsval \<Rightarrow> string \<Rightarrow> js_error + jsval" where
  "opt_chain v k = (if nullish v then Inr JUndefined else get_prop v k)"

text \<open>
  The conversion a template literal applies to each substitution (\<^verbatim>\<open>ToString\<close>).
  An array is joined with commas, \<^verbatim>\<open>null\<close> and \<^verbatim>\<open>undefined\<close> elements printing as
  nothing. A plain object prints as \<^verbatim>\<open>[object Object]\<close> through
  \<^verbatim>\<open>Object.prototype.toString\<close>; but an own property named \<^verbatim>\<open>toString\<close> hides that
  method, a parsed JSON value is never callable, \<^verbatim>\<open>valueOf\<close> gives the object back,
  and the conversion throws.
\<close>

fun to_string :: "jsval \<Rightarrow> js_error + string"
  and join_elems :: "jsval list \<Rightarrow> js_error + string" where
  "to_string JUndefined = Inr ''undefined''"
| "to_string JNull = Inr ''null''"
| "to_string (JBool b) = Inr (if b then ''true'' else ''false'')"
| "to_string (JNum n) = Inr n"
| "to_string (JStr s) = Inr s"
| "to_string (JArr vs) = join_elems vs"
| "to_string (JObj kvs) =
     (if ''toString'' \<in> fst ` set kvs
      then Inl (TypeError ''Cannot convert object to primitive value'')
      else Inr ''[object Object]'')"
| "join_elems [] = Inr ''''"
| "join_elems (v # vs) =
     (case (if v = JUndefined \<or> v = JNull then Inr '''' else to_string v) of
        Inl e \<Rightarrow> Inl e
      | Inr s \<Rightarrow>
          (if vs = [] then Inr s
           else case join_elems vs of Inl e \<Rightarrow> Inl e | Inr r \<Rightarrow> Inr (s @ '','' @ r)))"

text \<open>A template literal: its parts are evaluated and concatenated from left to right.\<close>

fun template :: "(js_error + string) list \<Rightarrow> js_error + string" where
  "template [] = Inr ''''"
| "template (p # ps) =
     (case p of
        Inl e \<Rightarrow> Inl e
      | Inr s \<Rightarrow> (case template ps of Inl e \<Rightarrow> Inl e | Inr r \<Rightarrow> Inr (s @ r)))"

text \<open>The substitution \<^verbatim>\<open>${v.k}\<close>.\<close>

definition interp :: "jsval \<Rightarrow> string \<Rightarrow> js_error + string" where
  "interp v k = and_then (get_prop v k) to_string"


section \<open>Console output and the statements that produce it\<close>

text \<open>
  The object literal \<^verbatim>\<open>paymentRecord\<close> of \<^verbatim>\<open>handleCheckoutSessionCompleted\<close>. The field
  \<open>timestamp\<close> holds the instant (milliseconds since the epoch) whose ISO-8601 text
  \<^verbatim>\<open>new Date().toISOString()\<close> stores; that text determines the instant and back.
\<close>

record payment_record =
  sessionId :: jsval
  customerEmail :: jsval
  amount :: jsval
  currency :: jsval
  status :: string
  metadata :: jsval
  timestamp :: nat

text \<open>
  An argument of \<^verbatim>\<open>console.log\<close> or \<^verbatim>\<open>console.error\<close>: a string, printed as it is, or
  a value, printed by the runtime's inspection, which the model keeps as the value.
\<close>

datatype log_arg =
    Str string
  | Inspect jsval
  | InspectRecord payment_record
  | InspectError js_error

datatype log_entry = Log "log_arg list" | LogError "log_arg list"

text \<open>
  The names of the eight handler functions, and of the \<^verbatim>\<open>default\<close> arm of the switch.
\<close>

datatype handler =
    CheckoutSessionCompleted
  | PaymentIntentSucceeded
  | PaymentIntentFailed
  | SubscriptionCreated
  | SubscriptionUpdated
  | SubscriptionDeleted
  | InvoicePaymentSucceeded
  | InvoicePaymentFailed
  | DefaultArm

text \<open>
  The only effect of the route besides its response is console output: the source calls
  no database and no notification service. \<open>console\<close> is that output, oldest first.
  \<open>invoked\<close> is a history variable, not program state: it lists the handlers entered
  (and the default arm, when taken), so that theorems can say which ones ran.
\<close>

record state =
  console :: "log_entry list"
  invoked :: "handler list"

type_synonym stmt = "state \<Rightarrow> (js_error + unit) \<times> state"

definition console_log :: "log_arg list \<Rightarrow> state \<Rightarrow> state" where
  "console_log args st = st\<lparr>console := console st @ [Log args]\<rparr>"

definition console_error :: "log_arg list \<Rightarrow> state \<Rightarrow> state" where
  "console_error args st = st\<lparr>console := console st @ [LogError args]\<rparr>"

definition enter :: "handler \<Rightarrow> state \<Rightarrow> state" where
  "enter h st = st\<lparr>invoked := invoked st @ [h]\<rparr>"

text \<open>\<^verbatim>\<open>console.log(`...`)\<close>: the template is evaluated first and may throw.\<close>

definition log_template :: "js_error + string \<Rightarrow> stmt" where
  "log_template t st =
     (case t of Inl e \<Rightarrow> (Inl e, st) | Inr s \<Rightarrow> (Inr (), console_log [Str s] st))"

text \<open>\<^verbatim>\<open>console.log('label', expr)\<close>: the expression is evaluated first and may throw.\<close>

definition log_labelled :: "string \<Rightarrow> js_error + log_arg \<Rightarrow> stmt" where
  "log_labelled label a st =
     (case a of Inl e \<Rightarrow> (Inl e, st) | Inr x \<Rightarrow> (Inr (), console_log [Str label, x] st))"

definition throw :: "js_error \<Rightarrow> stmt" where
  "throw e st = (Inl e, st)"

text \<open>A sequence of statements stops at the first one that throws.\<close>

fun block :: "stmt list \<Rightarrow> stmt" where
  "block [] st = (Inr (), st)"
| "block (s # ss) st =
     (case s st of (Inl e, st') \<Rightarrow> (Inl e, st') | (Inr u, st') \<Rightarrow> block ss st')"

definition try_catch :: "stmt \<Rightarrow> (js_error \<Rightarrow> stmt) \<Rightarrow> stmt" where
  "try_catch body handle st =
     (case body st of (Inl e, st') \<Rightarrow> handle e st' | (Inr u, st') \<Rightarrow> (Inr u, st'))"

section \<open>Log prefixes\<close>

text \<open>The pictographs that open the log lines of the source, as UTF-8 bytes.\<close>

definition check_mark :: string where "check_mark = [CHR 0xE2, CHR 0x9C, CHR 0x85]"
definition cross_mark :: string where "cross_mark = [CHR 0xE2, CHR 0x9D, CHR 0x8C]"
definition bell :: string where "bell = [CHR 0xF0, CHR 0x9F, CHR 0x94, CHR 0x94]"
definition money_bag :: string where "money_bag = [CHR 0xF0, CHR 0x9F, CHR 0x92, CHR 0xB0]"
definition e_mail :: string where "e_mail = [CHR 0xF0, CHR 0x9F, CHR 0x93, CHR 0xA7]"
definition banknote :: string where "banknote = [CHR 0xF0, CHR 0x9F, CHR 0x92, CHR 0xB5]"
definition clipboard :: string where "clipboard = [CHR 0xF0, CHR 0x9F, CHR 0x93, CHR 0x8B]"
definition memo :: string where "memo = [CHR 0xF0, CHR 0x9F, CHR 0x93, CHR 0x9D]"
definition prohibited :: string where "prohibited = [CHR 0xF0, CHR 0x9F, CHR 0x9A, CHR 0xAB]"
definition new_button :: string where "new_button = [CHR 0xF0, CHR 0x9F, CHR 0x86, CHR 0x95]"
definition bust :: string where "bust = [CHR 0xF0, CHR 0x9F, CHR 0x91, CHR 0xA4]"
definition calendar :: string where "calendar = [CHR 0xF0, CHR 0x9F, CHR 0x93, CHR 0x85]"
definition arrows :: string where "arrows = [CHR 0xF0, CHR 0x9F, CHR 0x94, CHR 0x84]"
definition wastebasket :: string where
  "wastebasket = [CHR 0xF0, CHR 0x9F, CHR 0x97, CHR 0x91, CHR 0xEF, CHR 0xB8, CHR 0x8F]"
definition credit_card :: string where "credit_card = [CHR 0xF0, CHR 0x9F, CHR 0x92, CHR 0xB3]"

section \<open>The eight handlers\<close>

text \<open>
  \<^verbatim>\<open>handleCheckoutSessionCompleted\<close>, lines 72 to 109. Four log statements, then a
  \<^verbatim>\<open>try\<close> that builds \<^verbatim>\<open>paymentRecord\<close> and logs it, with a \<^verbatim>\<open>catch\<close> that logs and
  throws again. \<open>now\<close> is the clock reading of \<^verbatim>\<open>new Date()\<close>.
\<close>

definition build_payment_record :: "jsval \<Rightarrow> nat \<Rightarrow> js_error + payment_record" where
  "build_payment_record session now =
     and_then (get_prop session ''id'') (\<lambda>sid.
     and_then (get_prop session ''customer_email'') (\<lambda>email.
     and_then (get_prop session ''amount_total'') (\<lambda>total.
     and_then (get_prop session ''currency'') (\<lambda>cur.
     and_then (get_prop session ''metadata'') (\<lambda>meta.
       Inr \<lparr>sessionId = sid, customerEmail = email, amount = total, currency = cur,
            status = ''completed'', metadata = meta, timestamp = now\<rparr>)))))"

definition handleCheckoutSessionCompleted :: "nat \<Rightarrow> jsval \<Rightarrow> stmt" where
  "handleCheckoutSessionCompleted now session =
     block
      [log_template (template [Inr (money_bag @ '' Checkout session completed: ''),
                               interp session ''id'']),
       log_template (template [Inr (e_mail @ '' Customer email: ''),
                               interp session ''customer_email'']),
       log_template (template [Inr (banknote @ '' Amount: ''),
                               interp session ''amount_total'', Inr '' '',
                               interp session ''currency'']),
       log_labelled (clipboard @ '' Metadata:'')
                    (and_then (get_prop session ''metadata'') (\<lambda>m. Inr (Inspect m))),
       try_catch
         (log_labelled (memo @ '' Payment record created:'')
                       (and_then (build_payment_record session now)
                                 (\<lambda>r. Inr (InspectRecord r))))
         (\<lambda>error. block
            [(\<lambda>st. (Inr (), console_error
                       [Str (cross_mark @ '' Error processing checkout completion:''),
                        InspectError error] st)),
             throw error])]"

text \<open>\<^verbatim>\<open>handlePaymentIntentSucceeded\<close>, lines 112 to 117.\<close>

definition handlePaymentIntentSucceeded :: "jsval \<Rightarrow> stmt" where
  "handlePaymentIntentSucceeded paymentIntent =
     block
      [log_template (template [Inr (check_mark @ '' Payment intent succeeded: ''),
                               interp paymentIntent ''id'']),
       log_template (template [Inr (banknote @ '' Amount: ''),
                               interp paymentIntent ''amount'', Inr '' '',
                               interp paymentIntent ''currency''])]"

text \<open>\<^verbatim>\<open>handlePaymentIntentFailed\<close>, lines 120 to 129.\<close>

definition handlePaymentIntentFailed :: "jsval \<Rightarrow> stmt" where
  "handlePaymentIntentFailed paymentIntent =
     block
      [log_template (template [Inr (cross_mark @ '' Payment intent failed: ''),
                               interp paymentIntent ''id'']),
       log_template (template [Inr (banknote @ '' Amount: ''),
                               interp paymentIntent ''amount'', Inr '' '',
                               interp paymentIntent ''currency'']),
       log_template (template [Inr (prohibited @ '' Failure reason: ''),
                               and_then (and_then (get_prop paymentIntent ''last_payment_error'')
                                                  (\<lambda>err. opt_chain err ''message''))
                                        to_string])]"

text \<open>\<^verbatim>\<open>handleSubscriptionCreated\<close>, lines 132 to 138.\<close>

definition handleSubscriptionCreated :: "jsval \<Rightarrow> stmt" where
  "handleSubscriptionCreated subscription =
     block
      [log_template (template [Inr (new_button @ '' Subscription created: ''),
                               interp subscription ''id'']),
       log_template (template [Inr (bust @ '' Customer: ''),
                               interp subscription ''customer'']),
       log_template (template [Inr (calendar @ '' Status: ''),
                               interp subscription ''status''])]"

text \<open>\<^verbatim>\<open>handleSubscriptionUpdated\<close>, lines 141 to 146.\<close>

definition handleSubscriptionUpdated :: "jsval \<Rightarrow> stmt" where
  "handleSubscriptionUpdated subscription =
     block
      [log_template (template [Inr (arrows @ '' Subscription updated: ''),
                               interp subscription ''id'']),
       log_template (template [Inr (calendar @ '' Status: ''),
                               interp subscription ''status''])]"

text \<open>\<^verbatim>\<open>handleSubscriptionDeleted\<close>, lines 149 to 157.\<close>

definition handleSubscriptionDeleted :: "jsval \<Rightarrow> stmt" where
  "handleSubscriptionDeleted subscription =
     block
      [log_template (template [Inr (wastebasket @ '' Subscription deleted: ''),
                               interp subscription ''id'']),
       log_template (template [Inr (bust @ '' Customer: ''),
                               interp subscription ''customer''])]"

text \<open>\<^verbatim>\<open>handleInvoicePaymentSucceeded\<close>, lines 160 to 165.\<close>

definition handleInvoicePaymentSucceeded :: "jsval \<Rightarrow> stmt" where
  "handleInvoicePaymentSucceeded invoice =
     block
      [log_template (template [Inr (credit_card @ '' Invoice payment succeeded: ''),
                               interp invoice ''id'']),
       log_template (template [Inr (banknote @ '' Amount: ''),
                               interp invoice ''amount_paid'', Inr '' '',
                               interp invoice ''currency''])]"

text \<open>\<^verbatim>\<open>handleInvoicePaymentFailed\<close>, lines 168 to 176.\<close>

definition handleInvoicePaymentFailed :: "jsval \<Rightarrow> stmt" where
  "handleInvoicePaymentFailed invoice =
     block
      [log_template (template [Inr (credit_card @ '' Invoice payment failed: ''),
                               interp invoice ''id'']),
       log_template (template [Inr (banknote @ '' Amount: ''),
                               interp invoice ''amount_due'', Inr '' '',
                               interp invoice ''currency''])]"

section \<open>The route \<^verbatim>\<open>POST /webhooks/stripe\<close>\<close>

text \<open>
  What the callback of \<^verbatim>\<open>router.post('/stripe', ...)\<close> reads of a request: the headers,
  and \<^verbatim>\<open>req.body\<close> as the raw-body middleware left it. The callback only passes the body
  on, so its type is left open.
\<close>

record 'b request =
  headers :: "string \<rightharpoonup> string"
  body :: 'b

datatype resp_body = Send string | Json jsval

record response =
  status_code :: nat
  content :: resp_body

text \<open>
  \<^verbatim>\<open>stripe.webhooks.constructEvent(req.body, sig, endpointSecret)\<close> belongs to the payment
  SDK, whose code is not part of this repository. It is a parameter of the model: a
  function of the clock, the body, the signature header and the secret (the last two
  absent when \<^verbatim>\<open>undefined\<close>) that returns the parsed event or throws.
\<close>

type_synonym 'b verifier =
  "nat \<Rightarrow> 'b \<Rightarrow> string option \<Rightarrow> string option \<Rightarrow> js_error + jsval"

text \<open>The first \<^verbatim>\<open>try\<close> block, lines 15 to 18: the SDK call and the log line after it.\<close>

definition verify_step ::
  "'b verifier \<Rightarrow> nat \<Rightarrow> 'b \<Rightarrow> string option \<Rightarrow> string option \<Rightarrow> state
     \<Rightarrow> (js_error + jsval) \<times> state" where
  "verify_step constructEvent now raw sig endpointSecret st =
     (case constructEvent now raw sig endpointSecret of
        Inl err \<Rightarrow> (Inl err, st)
      | Inr event \<Rightarrow>
          (case template [Inr (check_mark @ '' Webhook signature verified: ''),
                          interp event ''type''] of
             Inl err \<Rightarrow> (Inl err, st)
           | Inr line \<Rightarrow> (Inr event, console_log [Str line] st)))"

text \<open>
  A call \<^verbatim>\<open>await handleX(event.data.object)\<close>: the argument is evaluated, which throws
  when \<^verbatim>\<open>event.data\<close> is \<^verbatim>\<open>undefined\<close> or \<^verbatim>\<open>null\<close>, and then the handler is entered.
\<close>

definition call_handler :: "handler \<Rightarrow> (jsval \<Rightarrow> stmt) \<Rightarrow> jsval \<Rightarrow> stmt" where
  "call_handler h f event st =
     (case and_then (get_prop event ''data'') (\<lambda>d. get_prop d ''object'') of
        Inl e \<Rightarrow> (Inl e, st)
      | Inr arg \<Rightarrow> f arg (enter h st))"

text \<open>The \<^verbatim>\<open>default\<close> arm, line 60.\<close>

definition default_arm :: "jsval \<Rightarrow> stmt" where
  "default_arm event st =
     log_template (template [Inr (bell @ '' Unhandled event type: ''), interp event ''type''])
                  (enter DefaultArm st)"

text \<open>
  The \<^verbatim>\<open>switch (event.type)\<close> of lines 26 to 61. A \<^verbatim>\<open>case\<close> label matches by strict
  equality, so only a string equal to the label selects its arm.
\<close>

definition dispatch :: "jsval \<Rightarrow> nat \<Rightarrow> stmt" where
  "dispatch event now st =
     (case get_prop event ''type'' of
        Inl e \<Rightarrow> (Inl e, st)
      | Inr t \<Rightarrow>
          if t = JStr ''checkout.session.completed'' then
            call_handler CheckoutSessionCompleted (handleCheckoutSessionCompleted now) event st
          else if t = JStr ''payment_intent.succeeded'' then
            call_handler PaymentIntentSucceeded handlePaymentIntentSucceeded event st
          else if t = JStr ''payment_intent.payment_failed'' then
            call_handler PaymentIntentFailed handlePaymentIntentFailed event st
          else if t = JStr ''customer.subscription.created'' then
            call_handler SubscriptionCreated handleSubscriptionCreated event st
          else if t = JStr ''customer.subscription.updated'' then
            call_handler SubscriptionUpdated handleSubscriptionUpdated event st
          else if t = JStr ''customer.subscription.deleted'' then
            call_handler SubscriptionDeleted handleSubscriptionDeleted event st
          else if t = JStr ''invoice.payment_succeeded'' then
            call_handler InvoicePaymentSucceeded handleInvoicePaymentSucceeded event st
          else if t = JStr ''invoice.payment_failed'' then
            call_handler InvoicePaymentFailed handleInvoicePaymentFailed event st
          else default_arm event st)"

definition received :: response where
  "received = \<lparr>status_code = 200, content = Json (JObj [(''received'', JBool True)])\<rparr>"

definition handler_failed :: response where
  "handler_failed =
     \<lparr>status_code = 500, content = Json (JObj [(''error'', JStr ''Webhook handler failed'')])\<rparr>"

definition webhook_error :: "js_error \<Rightarrow> response" where
  "webhook_error err = \<lparr>status_code = 400, content = Send (''Webhook Error: '' @ message err)\<rparr>"

text \<open>
  The callback, lines 9 to 69. \<open>env\<close> is \<^verbatim>\<open>process.env\<close>, \<open>now\<close> the clock reading of
  the request. The result is the response sent, if one is sent: the \<^verbatim>\<open>catch\<close> of line 65
  evaluates a template of its own, and an exception there would leave the callback with
  no response (\<open>None\<close>).
\<close>

definition post_stripe ::
  "'b verifier \<Rightarrow> (string \<rightharpoonup> string) \<Rightarrow> nat \<Rightarrow> 'b request \<Rightarrow> state
     \<Rightarrow> response option \<times> state" where
  "post_stripe constructEvent env now req st =
     (let sig = headers req ''stripe-signature'';
          endpointSecret = env ''STRIPE_WEBHOOK_SECRET''
      in case verify_step constructEvent now (body req) sig endpointSecret st of
           (Inl err, st1) \<Rightarrow>
             (Some (webhook_error err),
              console_error
                [Str (cross_mark @ '' Webhook signature verification failed: '' @ message err)]
                st1)
         | (Inr event, st1) \<Rightarrow>
             (case dispatch event now st1 of
                (Inr u, st2) \<Rightarrow> (Some received, st2)
              | (Inl error, st2) \<Rightarrow>
                  (case template [Inr (cross_mark @ '' Error handling webhook event ''),
                                  interp event ''type'', Inr '':''] of
                     Inl e \<Rightarrow> (None, st2)
                   | Inr line \<Rightarrow>
                       (Some handler_failed,
                        console_error [Str line, InspectError error] st2))))"

section \<open>The application around the route\<close>

text \<open>
  A request as it arrives at the server: its header fields and the bytes of its body.
\<close>

record http_request =
  header_fields :: "string \<rightharpoonup> string"
  sent_body :: string

text \<open>
  \<^verbatim>\<open>express.raw({ type: 'application/json' })\<close>, the middleware in front of the callback
  (line 9), is library code. It is a parameter of the model: from the arriving request it
  either leaves a \<^verbatim>\<open>req.body\<close> and lets the callback run, or hands an error to
  \<^verbatim>\<open>next\<close>, as it does for a body over its size limit.
\<close>

type_synonym 'b body_parser = "http_request \<Rightarrow> js_error + 'b"

text \<open>
  The error-handling middleware of \<^verbatim>\<open>src/server.js\<close>, lines 59 to 65, which answers
  every error handed to \<^verbatim>\<open>next\<close>.
\<close>

definition internal_error :: "(string \<rightharpoonup> string) \<Rightarrow> js_error \<Rightarrow> response" where
  "internal_error env err =
     \<lparr>status_code = 500,
      content = Json (JObj
        [(''error'', JStr ''Internal server error''),
         (''message'', JStr (if env ''NODE_ENV'' = Some ''development'' then message err
                             else ''Something went wrong''))])\<rparr>"

definition error_middleware ::
  "(string \<rightharpoonup> string) \<Rightarrow> js_error \<Rightarrow> state \<Rightarrow> response option \<times> state" where
  "error_middleware env err st =
     (Some (internal_error env err), console_error [Str ''Error:'', InspectError err] st)"

text \<open>
  A \<^verbatim>\<open>POST /webhooks/stripe\<close> through \<^verbatim>\<open>src/server.js\<close>. The middleware of lines 11 to
  22 (\<^verbatim>\<open>helmet\<close>, \<^verbatim>\<open>cors\<close>, \<^verbatim>\<open>morgan\<close>) is taken to pass every such request on; the
  router mounted at line 34 then runs the body parser and, if that passes the request on,
  the callback. An error of the body parser skips the callback and reaches the error
  middleware.
\<close>

definition app_post_webhooks_stripe ::
  "'b body_parser \<Rightarrow> 'b verifier \<Rightarrow> (string \<rightharpoonup> string) \<Rightarrow> nat \<Rightarrow> http_request \<Rightarrow> state
     \<Rightarrow> response option \<times> state" where
  "app_post_webhooks_stripe raw constructEvent env now w st =
     (case raw w of
        Inl err \<Rightarrow> error_middleware env err st
      | Inr b \<Rightarrow> post_stripe constructEvent env now \<lparr>headers = header_fields w, body = b\<rparr> st)"

section \<open>Vocabulary of the statements\<close>

text \<open>
  The handler registry as the specification tabulates it: eight event types, each with
  its handler; any other type goes to the default. The theorems compare the switch of
  \<open>dispatch\<close> with this table.
\<close>

definition registry :: "(string \<times> handler) list" where
  "registry =
     [(''checkout.session.completed'', CheckoutSessionCompleted),
      (''payment_intent.succeeded'', PaymentIntentSucceeded),
      (''payment_intent.payment_failed'', PaymentIntentFailed),
      (''customer.subscription.created'', SubscriptionCreated),
      (''customer.subscription.updated'', SubscriptionUpdated),
      (''customer.subscription.deleted'', SubscriptionDeleted),
      (''invoice.payment_succeeded'', InvoicePaymentSucceeded),
      (''invoice.payment_failed'', InvoicePaymentFailed)]"

definition recognized :: "string list" where
  "recognized = map fst registry"

fun handler_for :: "jsval \<Rightarrow> handler" where
  "handler_for (JStr n) = (case map_of registry n of Some h \<Rightarrow> h | None \<Rightarrow> DefaultArm)"
| "handler_for v = DefaultArm"

text \<open>
  The function behind each name of the registry. The default arm is inline code, not a
  function; its entry here does nothing and is never called.
\<close>

fun handler_body :: "nat \<Rightarrow> handler \<Rightarrow> jsval \<Rightarrow> stmt" where
  "handler_body now CheckoutSessionCompleted = handleCheckoutSessionCompleted now"
| "handler_body now PaymentIntentSucceeded = handlePaymentIntentSucceeded"
| "handler_body now PaymentIntentFailed = handlePaymentIntentFailed"
| "handler_body now SubscriptionCreated = handleSubscriptionCreated"
| "handler_body now SubscriptionUpdated = handleSubscriptionUpdated"
| "handler_body now SubscriptionDeleted = handleSubscriptionDeleted"
| "handler_body now InvoicePaymentSucceeded = handleInvoicePaymentSucceeded"
| "handler_body now InvoicePaymentFailed = handleInvoicePaymentFailed"
| "handler_body now DefaultArm = (\<lambda>arg. block [])"

text \<open>
  A value none of whose objects, at any depth, has an own property named
  \<^verbatim>\<open>toString\<close>. Every value of this kind converts to a string.
\<close>

fun plain :: "jsval \<Rightarrow> bool"
  and plain_all :: "jsval list \<Rightarrow> bool"
  and plain_fields :: "(string \<times> jsval) list \<Rightarrow> bool" where
  "plain (JArr vs) = plain_all vs"
| "plain (JObj kvs) = plain_fields kvs"
| "plain JUndefined = True"
| "plain JNull = True"
| "plain (JBool b) = True"
| "plain (JNum n) = True"
| "plain (JStr s) = True"
| "plain_all [] = True"
| "plain_all (v # vs) = (plain v \<and> plain_all vs)"
| "plain_fields [] = True"
| "plain_fields ((k, v) # kvs) = (k \<noteq> ''toString'' \<and> plain v \<and> plain_fields kvs)"

text \<open>The empty state, and a state continued by the output and history of another.\<close>

definition start :: state where
  "start = \<lparr>console = [], invoked = []\<rparr>"

definition grow :: "state \<Rightarrow> state \<Rightarrow> state" where
  "grow st d = \<lparr>console = console st @ console d, invoked = invoked st @ invoked d\<rparr>"

text \<open>
  A statement is uniform when it does the same from every state: the same result, and the
  same entries appended to what the state already holds.
\<close>

definition uniform :: "stmt \<Rightarrow> bool" where
  "uniform s = (\<forall>st. s st = (fst (s start), grow st (snd (s start))))"

text \<open>A statement that enters no handler.\<close>

definition keeps :: "stmt \<Rightarrow> bool" where
  "keeps s = (\<forall>st. invoked (snd (s st)) = invoked st)"

text \<open>
  The outcome of a dispatch in the words of the specification: the handler that the
  registry gives for the type of the event is called once with \<^verbatim>\<open>event.data.object\<close>,
  and its outcome (or the failure to evaluate its argument) is the outcome; the default
  succeeds.
\<close>

definition handler_outcome :: "jsval \<Rightarrow> nat \<Rightarrow> js_error + unit" where
  "handler_outcome event now =
     (case get_prop event ''type'' of
        Inl e \<Rightarrow> Inl e
      | Inr t \<Rightarrow>
          if handler_for t = DefaultArm then Inr ()
          else (case and_then (get_prop event ''data'') (\<lambda>d. get_prop d ''object'') of
                  Inl e \<Rightarrow> Inl e
                | Inr arg \<Rightarrow> fst (handler_body now (handler_for t) arg start)))"

text \<open>A log entry with the timestamp of every payment record in it set to \<open>n\<close>.\<close>

fun set_arg :: "nat \<Rightarrow> log_arg \<Rightarrow> log_arg" where
  "set_arg n (InspectRecord r) = InspectRecord (r\<lparr>timestamp := n\<rparr>)"
| "set_arg n a = a"

fun set_time :: "nat \<Rightarrow> log_entry \<Rightarrow> log_entry" where
  "set_time n (Log args) = Log (map (set_arg n) args)"
| "set_time n (LogError args) = LogError (map (set_arg n) args)"

text \<open>A statement that, added to entries that carry the time \<open>n\<close>, leaves such entries.\<close>

definition stamps :: "nat \<Rightarrow> stmt \<Rightarrow> bool" where
  "stamps n s =
     (\<forall>st. map (set_time n) (console st) = console st
         \<longrightarrow> map (set_time n) (console (snd (s st))) = console (snd (s st)))"

text \<open>The payment records that a console holds, oldest first.\<close>

fun arg_records :: "log_arg list \<Rightarrow> payment_record list" where
  "arg_records [] = []"
| "arg_records (InspectRecord r # args) = r # arg_records args"
| "arg_records (a # args) = arg_records args"

fun records_of :: "log_entry list \<Rightarrow> payment_record list" where
  "records_of [] = []"
| "records_of (Log args # es) = arg_records args @ records_of es"
| "records_of (LogError args # es) = arg_records args @ records_of es"

section \<open>Inputs for the examples\<close>

text \<open>
  A stand-in for the SDK call in the examples: it throws when the header is absent, and
  otherwise accepts exactly the header that equals the secret, returning a fixed event.
\<close>

definition test_verifier :: "jsval \<Rightarrow> string verifier" where
  "test_verifier event now raw sig secret =
     (case sig of
        None \<Rightarrow> Inl (StripeError ''No stripe-signature header value was provided.'')
      | Some s \<Rightarrow>
          if secret = Some s then Inr event
          else Inl (StripeError
                 ''No signatures found matching the expected signature for payload.''))"

definition test_env :: "string \<rightharpoonup> string" where
  "test_env = [''STRIPE_WEBHOOK_SECRET'' \<mapsto> ''whsec_test'']"

definition signed_request :: "string request" where
  "signed_request = \<lparr>headers = [''stripe-signature'' \<mapsto> ''whsec_test''], body = ''{...}''\<rparr>"

definition unsigned_request :: "string request" where
  "unsigned_request = \<lparr>headers = Map.empty, body = ''{...}''\<rparr>"

definition forged_request :: "string request" where
  "forged_request = \<lparr>headers = [''stripe-signature'' \<mapsto> ''guess''], body = ''{...}''\<rparr>"

definition envelope :: "string \<Rightarrow> string \<Rightarrow> jsval \<Rightarrow> jsval" where
  "envelope eid ty dat =
     JObj [(''id'', JStr eid), (''type'', JStr ty), (''created'', JNum ''1700000000''),
           (''data'', dat)]"

definition payment_intent_event :: jsval where
  "payment_intent_event =
     envelope ''evt_1'' ''payment_intent.succeeded''
       (JObj [(''object'',
          JObj [(''id'', JStr ''pi_1''), (''amount'', JNum ''5000''), (''currency'', JStr ''usd'')])])"

definition checkout_event :: jsval where
  "checkout_event =
     envelope ''evt_2'' ''checkout.session.completed''
       (JObj [(''object'',
          JObj [(''id'', JStr ''cs_1''), (''customer_email'', JStr ''a@b.example''),
                (''amount_total'', JNum ''2500''), (''currency'', JStr ''usd''),
                (''metadata'', JObj [(''plan'', JStr ''pro'')])])])"


definition payment_intent_event_no_object :: jsval where
  "payment_intent_event_no_object =
     envelope ''evt_4'' ''payment_intent.succeeded'' (JObj [])"

definition subscription_event :: jsval where
  "subscription_event =
     envelope ''evt_6'' ''customer.subscription.updated''
       (JObj [(''object'',
          JObj [(''id'', JStr ''sub_1''), (''customer'', JStr ''cus_1''),
                (''status'', JStr ''active''),
                (''items'', JArr [JObj [(''id'', JStr ''si_1'')]])])])"

definition unknown_event :: jsval where
  "unknown_event =
     envelope ''evt_5'' ''charge.refunded'' (JObj [(''object'', JObj [(''id'', JStr ''ch_1'')])])"

text \<open>
  A stand-in for the body parser in the examples: it refuses a body of more than 102400
  bytes (the library's default limit of 100kb) and passes any other body on as it is.
\<close>

definition test_raw :: "string body_parser" where
  "test_raw w =
     (if 102400 < length (sent_body w) then Inl (HttpError ''request entity too large'')
      else Inr (sent_body w))"

definition signed_post :: http_request where
  "signed_post = \<lparr>header_fields = [''stripe-signature'' \<mapsto> ''whsec_test''], sent_body = ''{...}''\<rparr>"

definition unsigned_post :: http_request where
  "unsigned_post = \<lparr>header_fields = Map.empty, sent_body = ''{...}''\<rparr>"

definition oversize_post :: http_request where
  "oversize_post =
     \<lparr>header_fields = [''stripe-signature'' \<mapsto> ''whsec_test''],
      sent_body = replicate 102401 (CHR ''x'')\<rparr>"

definition unsigned_oversize_post :: http_request where
  "unsigned_oversize_post =
     \<lparr>header_fields = Map.empty, sent_body = replicate 102401 (CHR ''x'')\<rparr>"


section \<open>Basic facts\<close>

lemma template_colon:
  "template [Inr a, r, Inr b] = (case r of Inl e \<Rightarrow> Inl e | Inr s \<Rightarrow> Inr (a @ s @ b))"
  by (simp split: sum.splits)

lemma verify_step_InrD:
  assumes "verify_step ce now raw sig sec st = (Inr event, st1)"
  shows "ce now raw sig sec = Inr event"
    and "\<exists>tname. interp event ''type'' = Inr tname \<and>
           st1 = console_log [Str (check_mark @ '' Webhook signature verified: '' @ tname)] st"
  using assms by (auto simp: verify_step_def split: sum.splits)

lemmas example_defs =
  test_verifier_def test_env_def signed_request_def unsigned_request_def forged_request_def
  envelope_def start_def test_raw_def signed_post_def unsigned_post_def oversize_post_def
  unsigned_oversize_post_def

lemmas run_defs =
  post_stripe_def verify_step_def dispatch_def call_handler_def default_arm_def
  interp_def and_then_def log_template_def log_labelled_def try_catch_def throw_def
  console_log_def console_error_def enter_def received_def handler_failed_def webhook_error_def
  app_post_webhooks_stripe_def error_middleware_def internal_error_def

section \<open>Effects of statements\<close>

subsection \<open>Uniform statements\<close>

lemma grow_start [simp]: "grow st start = st" "grow start d = d"
  by (simp_all add: grow_def start_def)

lemma grow_assoc: "grow (grow st a) b = grow st (grow a b)"
  by (simp add: grow_def)

lemma console_grow [simp]: "console (grow st d) = console st @ console d"
  and invoked_grow [simp]: "invoked (grow st d) = invoked st @ invoked d"
  by (simp_all add: grow_def)

lemma uniformD: "uniform s \<Longrightarrow> s st = (fst (s start), grow st (snd (s start)))"
  unfolding uniform_def by (rule spec)

lemma uniformI: "(\<And>st. s st = (r, grow st d)) \<Longrightarrow> uniform s"
proof -
  assume h: "\<And>st. s st = (r, grow st d)"
  have "s start = (r, d)" using h [of start] by simp
  then show ?thesis by (simp add: uniform_def h)
qed

lemma console_log_grow: "console_log args st = grow st \<lparr>console = [Log args], invoked = []\<rparr>"
  by (simp add: console_log_def grow_def)

lemma console_error_grow:
  "console_error args st = grow st \<lparr>console = [LogError args], invoked = []\<rparr>"
  by (simp add: console_error_def grow_def)

lemma enter_grow: "enter h st = grow st \<lparr>console = [], invoked = [h]\<rparr>"
  by (simp add: enter_def grow_def)

lemma uniform_log_template [simp]: "uniform (log_template t)"
proof (cases t)
  case (Inl e)
  have "\<And>st. log_template t st = (Inl e, grow st start)" by (simp add: log_template_def Inl)
  then show ?thesis by (rule uniformI)
next
  case (Inr s)
  show ?thesis
    by (rule uniformI [where r = "Inr ()"]) (simp add: log_template_def Inr console_log_grow)
qed

lemma uniform_log_labelled [simp]: "uniform (log_labelled l a)"
proof (cases a)
  case (Inl e)
  have "\<And>st. log_labelled l a st = (Inl e, grow st start)" by (simp add: log_labelled_def Inl)
  then show ?thesis by (rule uniformI)
next
  case (Inr x)
  show ?thesis
    by (rule uniformI [where r = "Inr ()"]) (simp add: log_labelled_def Inr console_log_grow)
qed

lemma uniform_throw [simp]: "uniform (throw e)"
  by (rule uniformI [where d = start]) (simp add: throw_def)

lemma uniform_error_stmt [simp]: "uniform (\<lambda>st. (Inr (), console_error args st))"
  by (rule uniformI) (simp add: console_error_grow)

lemma uniform_block: "(\<And>s. s \<in> set ss \<Longrightarrow> uniform s) \<Longrightarrow> uniform (block ss)"
proof (induction ss)
  case Nil
  show ?case by (rule uniformI [where d = start]) simp
next
  case (Cons s ss)
  have s: "uniform s" and rest: "uniform (block ss)"
    using Cons by simp_all
  show ?case
  proof (cases "fst (s start)")
    case (Inl e)
    have "\<And>st. block (s # ss) st = (Inl e, grow st (snd (s start)))"
    proof -
      fix st
      show "block (s # ss) st = (Inl e, grow st (snd (s start)))"
        using uniformD [OF s, of st] Inl by simp
    qed
    then show ?thesis by (rule uniformI)
  next
    case (Inr u)
    have "\<And>st. block (s # ss) st =
            (fst (block ss start), grow st (grow (snd (s start)) (snd (block ss start))))"
    proof -
      fix st
      have "block (s # ss) st = block ss (grow st (snd (s start)))"
        using uniformD [OF s, of st] Inr by simp
      also have "\<dots> = (fst (block ss start), grow (grow st (snd (s start))) (snd (block ss start)))"
        by (rule uniformD [OF rest])
      finally show "block (s # ss) st =
            (fst (block ss start), grow st (grow (snd (s start)) (snd (block ss start))))"
        by (simp add: grow_assoc)
    qed
    then show ?thesis by (rule uniformI)
  qed
qed

lemma uniform_try_catch:
  assumes b: "uniform b" and h: "\<And>e. uniform (h e)"
  shows "uniform (try_catch b h)"
proof (cases "fst (b start)")
  case (Inl e)
  have "\<And>st. try_catch b h st = (fst (h e start), grow st (grow (snd (b start)) (snd (h e start))))"
  proof -
    fix st
    have "try_catch b h st = h e (grow st (snd (b start)))"
      using uniformD [OF b, of st] Inl by (simp add: try_catch_def)
    then show "try_catch b h st = (fst (h e start), grow st (grow (snd (b start)) (snd (h e start))))"
      using uniformD [OF h, of e "grow st (snd (b start))"] by (simp add: grow_assoc)
  qed
  then show ?thesis by (rule uniformI)
next
  case (Inr u)
  have "\<And>st. try_catch b h st = (Inr u, grow st (snd (b start)))"
  proof -
    fix st
    show "try_catch b h st = (Inr u, grow st (snd (b start)))"
      using uniformD [OF b, of st] Inr by (simp add: try_catch_def)
  qed
  then show ?thesis by (rule uniformI)
qed

lemma uniform_handler_body [simp]: "uniform (handler_body now h arg)"
proof (cases h)
  case CheckoutSessionCompleted
  then show ?thesis
    by (auto simp: handleCheckoutSessionCompleted_def intro!: uniform_block uniform_try_catch)
next
  case PaymentIntentSucceeded
  then show ?thesis by (auto simp: handlePaymentIntentSucceeded_def intro!: uniform_block)
next
  case PaymentIntentFailed
  then show ?thesis by (auto simp: handlePaymentIntentFailed_def intro!: uniform_block)
next
  case SubscriptionCreated
  then show ?thesis by (auto simp: handleSubscriptionCreated_def intro!: uniform_block)
next
  case SubscriptionUpdated
  then show ?thesis by (auto simp: handleSubscriptionUpdated_def intro!: uniform_block)
next
  case SubscriptionDeleted
  then show ?thesis by (auto simp: handleSubscriptionDeleted_def intro!: uniform_block)
next
  case InvoicePaymentSucceeded
  then show ?thesis by (auto simp: handleInvoicePaymentSucceeded_def intro!: uniform_block)
next
  case InvoicePaymentFailed
  then show ?thesis by (auto simp: handleInvoicePaymentFailed_def intro!: uniform_block)
next
  case DefaultArm
  then show ?thesis by (auto intro!: uniform_block)
qed

subsection \<open>Statements that enter no handler\<close>

lemma keepsD: "keeps s \<Longrightarrow> invoked (snd (s st)) = invoked st"
  by (simp add: keeps_def)

lemma keeps_log_template [simp]: "keeps (log_template t)"
  by (cases t) (simp_all add: keeps_def log_template_def console_log_def)

lemma keeps_log_labelled [simp]: "keeps (log_labelled l a)"
  by (cases a) (simp_all add: keeps_def log_labelled_def console_log_def)

lemma keeps_throw [simp]: "keeps (throw e)"
  by (simp add: keeps_def throw_def)

lemma keeps_error_stmt [simp]: "keeps (\<lambda>st. (Inr (), console_error args st))"
  by (simp add: keeps_def console_error_def)

lemma keeps_block: "(\<And>s. s \<in> set ss \<Longrightarrow> keeps s) \<Longrightarrow> keeps (block ss)"
proof (induction ss)
  case Nil
  show ?case by (simp add: keeps_def)
next
  case (Cons s ss)
  have s: "keeps s" and rest: "keeps (block ss)"
    using Cons by simp_all
  show ?case
    unfolding keeps_def
  proof
    fix st
    obtain r st' where run: "s st = (r, st')" by (cases "s st")
    have "invoked st' = invoked st" using keepsD [OF s, of st] run by simp
    then show "invoked (snd (block (s # ss) st)) = invoked st"
      using run keepsD [OF rest, of st'] by (cases r) simp_all
  qed
qed

lemma keeps_try_catch:
  assumes b: "keeps b" and h: "\<And>e. keeps (h e)"
  shows "keeps (try_catch b h)"
  unfolding keeps_def
proof
  fix st
  obtain r st' where run: "b st = (r, st')" by (cases "b st")
  have "invoked st' = invoked st" using keepsD [OF b, of st] run by simp
  then show "invoked (snd (try_catch b h st)) = invoked st"
    using run keepsD [OF h, of _ st'] by (cases r) (simp_all add: try_catch_def)
qed

lemma keeps_handler_body [simp]: "keeps (handler_body now h arg)"
proof (cases h)
  case CheckoutSessionCompleted
  then show ?thesis
    by (auto simp: handleCheckoutSessionCompleted_def intro!: keeps_block keeps_try_catch)
next
  case PaymentIntentSucceeded
  then show ?thesis by (auto simp: handlePaymentIntentSucceeded_def intro!: keeps_block)
next
  case PaymentIntentFailed
  then show ?thesis by (auto simp: handlePaymentIntentFailed_def intro!: keeps_block)
next
  case SubscriptionCreated
  then show ?thesis by (auto simp: handleSubscriptionCreated_def intro!: keeps_block)
next
  case SubscriptionUpdated
  then show ?thesis by (auto simp: handleSubscriptionUpdated_def intro!: keeps_block)
next
  case SubscriptionDeleted
  then show ?thesis by (auto simp: handleSubscriptionDeleted_def intro!: keeps_block)
next
  case InvoicePaymentSucceeded
  then show ?thesis by (auto simp: handleInvoicePaymentSucceeded_def intro!: keeps_block)
next
  case InvoicePaymentFailed
  then show ?thesis by (auto simp: handleInvoicePaymentFailed_def intro!: keeps_block)
next
  case DefaultArm
  then show ?thesis by (auto intro!: keeps_block)
qed

subsection \<open>The switch and the registry\<close>

lemma handler_for_cases:
  "handler_for t =
     (if t = JStr ''checkout.session.completed'' then CheckoutSessionCompleted
      else if t = JStr ''payment_intent.succeeded'' then PaymentIntentSucceeded
      else if t = JStr ''payment_intent.payment_failed'' then PaymentIntentFailed
      else if t = JStr ''customer.subscription.created'' then SubscriptionCreated
      else if t = JStr ''customer.subscription.updated'' then SubscriptionUpdated
      else if t = JStr ''customer.subscription.deleted'' then SubscriptionDeleted
      else if t = JStr ''invoice.payment_succeeded'' then InvoicePaymentSucceeded
      else if t = JStr ''invoice.payment_failed'' then InvoicePaymentFailed
      else DefaultArm)"
  by (cases t) (simp_all add: registry_def)

lemma dispatch_registry:
  assumes "get_prop event ''type'' = Inr t"
  shows "dispatch event now st =
           (if handler_for t = DefaultArm then default_arm event st
            else call_handler (handler_for t) (handler_body now (handler_for t)) event st)"
  using assms by (simp add: dispatch_def handler_for_cases)

lemma uniform_call_handler:
  assumes f: "\<And>arg. uniform (f arg)"
  shows "uniform (call_handler h f event)"
proof (cases "and_then (get_prop event ''data'') (\<lambda>d. get_prop d ''object'')")
  case (Inl e)
  show ?thesis by (rule uniformI [where d = start]) (simp add: call_handler_def Inl)
next
  case (Inr arg)
  have "\<And>st. call_handler h f event st =
          (fst (f arg start), grow st (grow \<lparr>console = [], invoked = [h]\<rparr> (snd (f arg start))))"
  proof -
    fix st
    show "call_handler h f event st =
          (fst (f arg start), grow st (grow \<lparr>console = [], invoked = [h]\<rparr> (snd (f arg start))))"
      using uniformD [OF f, of arg "enter h st"]
      by (simp add: call_handler_def Inr enter_grow grow_assoc)
  qed
  then show ?thesis by (rule uniformI)
qed

lemma uniform_default_arm [simp]: "uniform (default_arm event)"
proof -
  let ?s = "log_template (template [Inr (bell @ '' Unhandled event type: ''), interp event ''type''])"
  have "\<And>st. default_arm event st =
          (fst (?s start), grow st (grow \<lparr>console = [], invoked = [DefaultArm]\<rparr> (snd (?s start))))"
  proof -
    fix st
    show "default_arm event st =
          (fst (?s start), grow st (grow \<lparr>console = [], invoked = [DefaultArm]\<rparr> (snd (?s start))))"
      using uniformD [OF uniform_log_template, of _ "enter DefaultArm st"]
      by (simp add: default_arm_def enter_grow grow_assoc)
  qed
  then show ?thesis by (rule uniformI)
qed

lemma uniform_dispatch [simp]: "uniform (dispatch event now)"
proof (cases "get_prop event ''type''")
  case (Inl e)
  show ?thesis by (rule uniformI [where d = start]) (simp add: dispatch_def Inl)
next
  case (Inr t)
  have "dispatch event now =
          (if handler_for t = DefaultArm then default_arm event
           else call_handler (handler_for t) (handler_body now (handler_for t)) event)"
    by (rule ext) (simp add: dispatch_registry [OF Inr])
  then show ?thesis by (simp add: uniform_call_handler)
qed

lemma dispatch_console:
  "console (snd (dispatch event now st)) = console st @ console (snd (dispatch event now start))"
  using uniformD [OF uniform_dispatch, of event now st] by simp

lemma post_stripe_uniform:
  "post_stripe ce env now req st =
     (fst (post_stripe ce env now req start), grow st (snd (post_stripe ce env now req start)))"
proof (cases "ce now (body req) (headers req ''stripe-signature'') (env ''STRIPE_WEBHOOK_SECRET'')")
  case (Inl err)
  then show ?thesis
    by (simp add: post_stripe_def verify_step_def console_error_grow)
next
  case (Inr event)
  show ?thesis
  proof (cases "interp event ''type''")
    case (Inl err)
    with Inr show ?thesis
      by (simp add: post_stripe_def verify_step_def console_error_grow)
  next
    case tn: (Inr tname)
    let ?line = "\<lparr>console = [Log [Str (check_mark @ '' Webhook signature verified: '' @ tname)]],
                  invoked = []\<rparr>"
    let ?d = "dispatch event now start"
    have d1: "dispatch event now (grow st ?line) = (fst ?d, grow st (grow ?line (snd ?d)))"
      using uniformD [OF uniform_dispatch, of event now "grow st ?line"] by (simp add: grow_assoc)
    have d2: "dispatch event now ?line = (fst ?d, grow ?line (snd ?d))"
      using uniformD [OF uniform_dispatch, of event now ?line] by simp
    have v: "\<And>s. verify_step ce now (body req) (headers req ''stripe-signature'')
                  (env ''STRIPE_WEBHOOK_SECRET'') s = (Inr event, grow s ?line)"
      using Inr tn by (simp add: verify_step_def console_log_grow)
    show ?thesis
    proof (cases "fst ?d")
      case (Inl error)
      then show ?thesis
        using v [of st] v [of start] d1 d2 tn
        by (simp add: post_stripe_def template_colon console_error_grow grow_assoc)
    next
      case (Inr u)
      then show ?thesis
        using v [of st] v [of start] d1 d2 tn
        by (simp add: post_stripe_def)
    qed
  qed
qed

lemma post_stripe_logs:
  "console (snd (post_stripe ce env now req start)) \<noteq> []"
proof (cases "ce now (body req) (headers req ''stripe-signature'') (env ''STRIPE_WEBHOOK_SECRET'')")
  case (Inl err)
  then show ?thesis
    by (simp add: post_stripe_def verify_step_def console_error_def)
next
  case (Inr event)
  show ?thesis
  proof (cases "interp event ''type''")
    case (Inl err)
    with Inr show ?thesis
      by (simp add: post_stripe_def verify_step_def console_error_def)
  next
    case tn: (Inr tname)
    let ?st1 = "console_log [Str (check_mark @ '' Webhook signature verified: '' @ tname)] start"
    have v: "verify_step ce now (body req) (headers req ''stripe-signature'')
               (env ''STRIPE_WEBHOOK_SECRET'') start = (Inr event, ?st1)"
      using Inr tn by (simp add: verify_step_def)
    have c: "console (snd (dispatch event now ?st1)) =
               console ?st1 @ console (snd (dispatch event now start))"
      by (rule dispatch_console)
    obtain d st2 where run: "dispatch event now ?st1 = (d, st2)"
      by (cases "dispatch event now ?st1")
    with c have "console st2 \<noteq> []" by (simp add: console_log_def)
    with v run tn show ?thesis
      by (cases d) (simp_all add: post_stripe_def template_colon console_error_def)
  qed
qed

subsection \<open>The clock only reaches the timestamp\<close>

lemma build_payment_record_now:
  "build_payment_record session now =
     (case build_payment_record session 0 of
        Inl e \<Rightarrow> Inl e
      | Inr r \<Rightarrow> Inr (r\<lparr>timestamp := now\<rparr>))"
  by (simp add: build_payment_record_def and_then_def split: sum.splits)

lemma block_append:
  "block (xs @ ys) st =
     (case block xs st of (Inl e, st') \<Rightarrow> (Inl e, st') | (Inr u, st') \<Rightarrow> block ys st')"
  by (induction xs arbitrary: st) (auto split: prod.splits sum.splits)

lemma record_step_alike:
  fixes session :: jsval and now now' :: nat
  defines "step \<equiv> (\<lambda>n. try_catch
         (log_labelled (memo @ '' Payment record created:'')
                       (and_then (build_payment_record session n)
                                 (\<lambda>r. Inr (InspectRecord r))))
         (\<lambda>error. block
            [(\<lambda>st. (Inr (), console_error
                       [Str (cross_mark @ '' Error processing checkout completion:''),
                        InspectError error] st)),
             throw error]))"
  shows "fst (step now st) = fst (step now' st) \<and>
         map (set_time n) (console (snd (step now st))) =
         map (set_time n) (console (snd (step now' st)))"
proof (cases "build_payment_record session 0")
  case (Inl e)
  then show ?thesis
    unfolding step_def
    by (simp add: build_payment_record_now [of session now]
          build_payment_record_now [of session now'] try_catch_def log_labelled_def and_then_def)
next
  case (Inr r)
  then show ?thesis
    unfolding step_def
    by (simp add: build_payment_record_now [of session now]
          build_payment_record_now [of session now'] try_catch_def log_labelled_def and_then_def
          console_log_def)
qed

lemma checkout_alike:
  "fst (handleCheckoutSessionCompleted now session st) =
   fst (handleCheckoutSessionCompleted now' session st) \<and>
   map (set_time n) (console (snd (handleCheckoutSessionCompleted now session st))) =
   map (set_time n) (console (snd (handleCheckoutSessionCompleted now' session st)))"
proof -
  define pre where "pre =
      [log_template (template [Inr (money_bag @ '' Checkout session completed: ''),
                               interp session ''id'']),
       log_template (template [Inr (e_mail @ '' Customer email: ''),
                               interp session ''customer_email'']),
       log_template (template [Inr (banknote @ '' Amount: ''),
                               interp session ''amount_total'', Inr '' '',
                               interp session ''currency'']),
       log_labelled (clipboard @ '' Metadata:'')
                    (and_then (get_prop session ''metadata'') (\<lambda>m. Inr (Inspect m)))]"
  define step where "step = (\<lambda>n. try_catch
         (log_labelled (memo @ '' Payment record created:'')
                       (and_then (build_payment_record session n)
                                 (\<lambda>r. Inr (InspectRecord r))))
         (\<lambda>error. block
            [(\<lambda>st. (Inr (), console_error
                       [Str (cross_mark @ '' Error processing checkout completion:''),
                        InspectError error] st)),
             throw error]))"
  have split: "\<And>n. handleCheckoutSessionCompleted n session = block (pre @ [step n])"
    by (simp add: handleCheckoutSessionCompleted_def pre_def step_def)
  have alike: "fst (step now s) = fst (step now' s) \<and>
         map (set_time n) (console (snd (step now s))) =
         map (set_time n) (console (snd (step now' s)))" for s
    unfolding step_def by (rule record_step_alike)
  obtain r st1 where run: "block pre st = (r, st1)" by (cases "block pre st")
  show ?thesis
  proof (cases r)
    case (Inl e)
    with run show ?thesis
      by (simp add: split block_append)
  next
    case (Inr u)
    with run alike [of st1] show ?thesis
      by (cases "step now st1"; cases "step now' st1")
         (auto simp: split block_append split: sum.splits)
  qed
qed

lemma handler_body_alike:
  "fst (handler_body now h arg st) = fst (handler_body now' h arg st) \<and>
   map (set_time n) (console (snd (handler_body now h arg st))) =
   map (set_time n) (console (snd (handler_body now' h arg st)))"
  using checkout_alike [of now arg st now'] by (cases h) simp_all

lemma dispatch_alike:
  "fst (dispatch event now st) = fst (dispatch event now' st) \<and>
   map (set_time n) (console (snd (dispatch event now st))) =
   map (set_time n) (console (snd (dispatch event now' st)))"
proof (cases "get_prop event ''type''")
  case (Inl e)
  then show ?thesis by (simp add: dispatch_def)
next
  case (Inr t)
  show ?thesis
  proof (cases "and_then (get_prop event ''data'') (\<lambda>d. get_prop d ''object'')")
    case (Inl e)
    then show ?thesis
      by (simp add: dispatch_registry [OF Inr] call_handler_def)
  next
    case arg: (Inr arg)
    show ?thesis
      using handler_body_alike [of now "handler_for t" arg "enter (handler_for t) st" now'] arg
      by (simp add: dispatch_registry [OF Inr] call_handler_def)
  qed
qed

lemma post_stripe_alike:
  assumes same: "ce now (body req) (headers req ''stripe-signature'') (env ''STRIPE_WEBHOOK_SECRET'')
               = ce now' (body req) (headers req ''stripe-signature'') (env ''STRIPE_WEBHOOK_SECRET'')"
  shows "fst (post_stripe ce env now req st) = fst (post_stripe ce env now' req st) \<and>
         map (set_time n) (console (snd (post_stripe ce env now req st))) =
         map (set_time n) (console (snd (post_stripe ce env now' req st)))"
proof -
  let ?v = "\<lambda>n. verify_step ce n (body req) (headers req ''stripe-signature'')
                   (env ''STRIPE_WEBHOOK_SECRET'') st"
  have v: "?v now = ?v now'"
    using same by (simp add: verify_step_def)
  obtain r st1 where run: "?v now' = (r, st1)" by (cases "?v now'")
  show ?thesis
  proof (cases r)
    case (Inl err)
    with v run show ?thesis by (simp add: post_stripe_def)
  next
    case (Inr event)
    obtain d st2 where d: "dispatch event now st1 = (d, st2)"
      by (cases "dispatch event now st1")
    obtain d' st2' where d': "dispatch event now' st1 = (d', st2')"
      by (cases "dispatch event now' st1")
    have "d = d'" and "map (set_time n) (console st2) = map (set_time n) (console st2')"
      using dispatch_alike [of event now st1 now'] d d' by simp_all
    with v run Inr d d' show ?thesis
      by (cases d'; cases "template [Inr (cross_mark @ '' Error handling webhook event ''),
                                  interp event ''type'', Inr '':'']")
         (simp_all add: post_stripe_def console_error_def)
  qed
qed

subsection \<open>Values that convert to strings\<close>

lemma get_prop_total: "\<not> nullish v \<Longrightarrow> \<exists>w. get_prop v k = Inr w"
  by (cases v) (simp_all add: nullish_def)

lemma plain_fields_no_toString: "plain_fields kvs \<Longrightarrow> ''toString'' \<notin> fst ` set kvs"
  by (induction kvs) force+

lemma plain_fields_lookup: "plain_fields kvs \<Longrightarrow> map_of kvs k = Some w \<Longrightarrow> plain w"
  by (induction kvs) (auto split: if_splits)

lemma plain_to_string:
  "plain v \<Longrightarrow> \<exists>s. to_string v = Inr s"
  "plain_all vs \<Longrightarrow> \<exists>s. join_elems vs = Inr s"
proof (induction v and vs rule: to_string_join_elems.induct)
  case (7 kvs)
  then show ?case by (simp add: plain_fields_no_toString)
next
  case (9 v vs)
  then show ?case by (cases "vs = []") auto
qed simp_all

lemma plain_get_prop:
  assumes "plain v" and "\<not> nullish v"
  shows "\<exists>w. get_prop v k = Inr w \<and> plain w"
proof (cases v)
  case (JObj kvs)
  with assms show ?thesis
    by (cases "map_of kvs k") (auto dest: plain_fields_lookup)
qed (use assms in \<open>simp_all add: nullish_def\<close>)

lemma plain_interp:
  assumes "plain v" and "\<not> nullish v"
  shows "\<exists>s. interp v k = Inr s"
proof -
  obtain w where "get_prop v k = Inr w" and "plain w"
    using plain_get_prop [OF assms] by blast
  then show ?thesis
    using plain_to_string(1) [of w] by (auto simp: interp_def and_then_def)
qed

lemma plain_opt_chain:
  assumes "plain v"
  shows "\<exists>s. and_then (opt_chain v k) to_string = Inr s"
proof (cases "nullish v")
  case True
  then show ?thesis by (simp add: opt_chain_def and_then_def)
next
  case False
  then show ?thesis
    using plain_interp [OF assms False, of k] by (simp add: opt_chain_def interp_def)
qed

lemma plain_build_payment_record:
  assumes "\<not> nullish v"
  shows "\<exists>r. build_payment_record v now = Inr r"
proof -
  have "\<And>k. \<exists>w. get_prop v k = Inr w" using assms by (rule get_prop_total)
  then obtain a b c d e where
    "get_prop v ''id'' = Inr a" "get_prop v ''customer_email'' = Inr b"
    "get_prop v ''amount_total'' = Inr c" "get_prop v ''currency'' = Inr d"
    "get_prop v ''metadata'' = Inr e"
    by metis
  then show ?thesis by (simp add: build_payment_record_def and_then_def)
qed

lemma handler_body_plain:
  assumes p: "plain p" and n: "\<not> nullish p"
  shows "fst (handler_body now h p st) = Inr ()"
proof -
  note i = plain_interp [OF p n]
  obtain sid where sid: "interp p ''id'' = Inr sid" using i by blast
  obtain cur where cur: "interp p ''currency'' = Inr cur" using i by blast
  obtain sta where sta: "interp p ''status'' = Inr sta" using i by blast
  obtain cus where cus: "interp p ''customer'' = Inr cus" using i by blast
  show ?thesis
  proof (cases h)
    case CheckoutSessionCompleted
    obtain em where em: "interp p ''customer_email'' = Inr em" using i by blast
    obtain tot where tot: "interp p ''amount_total'' = Inr tot" using i by blast
    obtain meta where meta: "get_prop p ''metadata'' = Inr meta"
      using get_prop_total [OF n] by blast
    obtain r where r: "build_payment_record p now = Inr r"
      using plain_build_payment_record [OF n] by blast
    show ?thesis
      by (simp add: CheckoutSessionCompleted handleCheckoutSessionCompleted_def sid em tot cur
            meta r log_template_def log_labelled_def try_catch_def and_then_def)
  next
    case PaymentIntentSucceeded
    obtain am where am: "interp p ''amount'' = Inr am" using i by blast
    show ?thesis
      by (simp add: PaymentIntentSucceeded handlePaymentIntentSucceeded_def sid am cur
            log_template_def)
  next
    case PaymentIntentFailed
    obtain am where am: "interp p ''amount'' = Inr am" using i by blast
    obtain lpe where lpe: "get_prop p ''last_payment_error'' = Inr lpe" and pl: "plain lpe"
      using plain_get_prop [OF p n] by blast
    obtain msg where msg: "and_then (opt_chain lpe ''message'') to_string = Inr msg"
      using plain_opt_chain [OF pl] by blast
    show ?thesis
      using msg
      by (simp add: PaymentIntentFailed handlePaymentIntentFailed_def sid am cur lpe
            log_template_def and_then_def)
  next
    case SubscriptionCreated
    show ?thesis
      by (simp add: SubscriptionCreated handleSubscriptionCreated_def sid cus sta log_template_def)
  next
    case SubscriptionUpdated
    show ?thesis
      by (simp add: SubscriptionUpdated handleSubscriptionUpdated_def sid sta log_template_def)
  next
    case SubscriptionDeleted
    show ?thesis
      by (simp add: SubscriptionDeleted handleSubscriptionDeleted_def sid cus log_template_def)
  next
    case InvoicePaymentSucceeded
    obtain am where am: "interp p ''amount_paid'' = Inr am" using i by blast
    show ?thesis
      by (simp add: InvoicePaymentSucceeded handleInvoicePaymentSucceeded_def sid am cur
            log_template_def)
  next
    case InvoicePaymentFailed
    obtain am where am: "interp p ''amount_due'' = Inr am" using i by blast
    show ?thesis
      by (simp add: InvoicePaymentFailed handleInvoicePaymentFailed_def sid am cur
            log_template_def)
  next
    case DefaultArm
    show ?thesis by (simp add: DefaultArm)
  qed
qed

subsection \<open>Entries that carry the time of the delivery\<close>

lemma stampsD:
  "stamps n s \<Longrightarrow> map (set_time n) (console st) = console st
     \<Longrightarrow> map (set_time n) (console (snd (s st))) = console (snd (s st))"
  by (simp add: stamps_def)

lemma stamps_log_template [simp]: "stamps n (log_template t)"
  by (cases t) (simp_all add: stamps_def log_template_def console_log_def)

lemma stamps_log_labelled:
  "(\<And>x. a = Inr x \<Longrightarrow> set_arg n x = x) \<Longrightarrow> stamps n (log_labelled l a)"
  by (cases a) (simp_all add: stamps_def log_labelled_def console_log_def)

lemma stamps_throw [simp]: "stamps n (throw e)"
  by (simp add: stamps_def throw_def)

lemma stamps_error_stmt [simp]:
  "stamps n (\<lambda>st. (Inr (), console_error [Str l, InspectError e] st))"
  by (simp add: stamps_def console_error_def)

lemma stamps_block: "(\<And>s. s \<in> set ss \<Longrightarrow> stamps n s) \<Longrightarrow> stamps n (block ss)"
proof (induction ss)
  case Nil
  show ?case by (simp add: stamps_def)
next
  case (Cons s ss)
  have s: "stamps n s" and rest: "stamps n (block ss)"
    using Cons by simp_all
  show ?case
    unfolding stamps_def
  proof (intro allI impI)
    fix st :: state
    assume ok: "map (set_time n) (console st) = console st"
    obtain r st' where run: "s st = (r, st')" by (cases "s st")
    have ok': "map (set_time n) (console st') = console st'"
      using stampsD [OF s ok] run by simp
    show "map (set_time n) (console (snd (block (s # ss) st))) = console (snd (block (s # ss) st))"
      using run ok' stampsD [OF rest ok'] by (cases r) simp_all
  qed
qed

lemma stamps_try_catch:
  assumes b: "stamps n b" and h: "\<And>e. stamps n (h e)"
  shows "stamps n (try_catch b h)"
  unfolding stamps_def
proof (intro allI impI)
  fix st :: state
  assume ok: "map (set_time n) (console st) = console st"
  obtain r st' where run: "b st = (r, st')" by (cases "b st")
  have ok': "map (set_time n) (console st') = console st'"
    using stampsD [OF b ok] run by simp
  show "map (set_time n) (console (snd (try_catch b h st))) = console (snd (try_catch b h st))"
    using run ok' stampsD [OF h ok'] by (cases r) (simp_all add: try_catch_def)
qed

lemma build_payment_record_timestamp:
  "build_payment_record session now = Inr r \<Longrightarrow> timestamp r = now"
  by (auto simp: build_payment_record_def and_then_def split: sum.splits)

lemma stamps_handler_body [simp]: "stamps now (handler_body now h arg)"
proof (cases h)
  case CheckoutSessionCompleted
  have rec: "stamps now (log_labelled (memo @ '' Payment record created:'')
                 (and_then (build_payment_record arg now) (\<lambda>r. Inr (InspectRecord r))))"
    by (rule stamps_log_labelled)
       (auto simp: and_then_def split: sum.splits dest: build_payment_record_timestamp)
  have meta: "stamps now (log_labelled (clipboard @ '' Metadata:'')
                 (and_then (get_prop arg ''metadata'') (\<lambda>m. Inr (Inspect m))))"
    by (rule stamps_log_labelled) (auto simp: and_then_def split: sum.splits)
  show ?thesis
    unfolding CheckoutSessionCompleted handler_body.simps handleCheckoutSessionCompleted_def
    by (rule stamps_block) (auto intro!: stamps_try_catch stamps_block rec meta)
next
  case PaymentIntentSucceeded
  then show ?thesis by (auto simp: handlePaymentIntentSucceeded_def intro!: stamps_block)
next
  case PaymentIntentFailed
  then show ?thesis by (auto simp: handlePaymentIntentFailed_def intro!: stamps_block)
next
  case SubscriptionCreated
  then show ?thesis by (auto simp: handleSubscriptionCreated_def intro!: stamps_block)
next
  case SubscriptionUpdated
  then show ?thesis by (auto simp: handleSubscriptionUpdated_def intro!: stamps_block)
next
  case SubscriptionDeleted
  then show ?thesis by (auto simp: handleSubscriptionDeleted_def intro!: stamps_block)
next
  case InvoicePaymentSucceeded
  then show ?thesis by (auto simp: handleInvoicePaymentSucceeded_def intro!: stamps_block)
next
  case InvoicePaymentFailed
  then show ?thesis by (auto simp: handleInvoicePaymentFailed_def intro!: stamps_block)
next
  case DefaultArm
  then show ?thesis by (auto intro!: stamps_block)
qed

lemma stamps_dispatch [simp]: "stamps now (dispatch event now)"
proof (cases "get_prop event ''type''")
  case (Inl e)
  then show ?thesis by (simp add: stamps_def dispatch_def)
next
  case (Inr t)
  show ?thesis
    unfolding stamps_def
  proof (intro allI impI)
    fix st :: state
    assume ok: "map (set_time now) (console st) = console st"
    show "map (set_time now) (console (snd (dispatch event now st))) =
          console (snd (dispatch event now st))"
    proof (cases "handler_for t = DefaultArm")
      case True
      have "map (set_time now) (console (enter DefaultArm st)) = console (enter DefaultArm st)"
        using ok by (simp add: enter_def)
      then show ?thesis
        using True stampsD [OF stamps_log_template, of now "enter DefaultArm st"]
        by (simp add: dispatch_registry [OF Inr] default_arm_def)
    next
      case False
      show ?thesis
      proof (cases "and_then (get_prop event ''data'') (\<lambda>d. get_prop d ''object'')")
        case (Inl e)
        with False ok show ?thesis
          by (simp add: dispatch_registry [OF Inr] call_handler_def)
      next
        case arg: (Inr arg)
        have "map (set_time now) (console (enter (handler_for t) st)) =
              console (enter (handler_for t) st)"
          using ok by (simp add: enter_def)
        then show ?thesis
          using False arg
            stampsD [OF stamps_handler_body, of now "enter (handler_for t) st" "handler_for t" arg]
          by (simp add: dispatch_registry [OF Inr] call_handler_def)
      qed
    qed
  qed
qed

lemma post_stripe_stamps:
  assumes ok: "map (set_time now) (console st) = console st"
  shows "map (set_time now) (console (snd (post_stripe ce env now req st))) =
         console (snd (post_stripe ce env now req st))"
proof -
  let ?v = "verify_step ce now (body req) (headers req ''stripe-signature'')
              (env ''STRIPE_WEBHOOK_SECRET'') st"
  obtain r st1 where v: "?v = (r, st1)" by (cases ?v)
  have ok1: "map (set_time now) (console st1) = console st1"
    using v ok by (auto simp: verify_step_def console_log_def split: sum.splits)
  show ?thesis
  proof (cases r)
    case (Inl err)
    with v ok1 show ?thesis by (simp add: post_stripe_def console_error_def)
  next
    case (Inr event)
    obtain d st2 where d: "dispatch event now st1 = (d, st2)"
      by (cases "dispatch event now st1")
    have ok2: "map (set_time now) (console st2) = console st2"
      using stampsD [OF stamps_dispatch ok1, of event] d by simp
    with v Inr d show ?thesis
      by (cases d; cases "template [Inr (cross_mark @ '' Error handling webhook event ''),
                                  interp event ''type'', Inr '':'']")
         (simp_all add: post_stripe_def console_error_def)
  qed
qed

subsection \<open>Payment records in a console\<close>

lemma arg_records_append: "arg_records (xs @ ys) = arg_records xs @ arg_records ys"
  by (induction xs rule: arg_records.induct) simp_all

lemma records_of_append: "records_of (xs @ ys) = records_of xs @ records_of ys"
  by (induction xs rule: records_of.induct) simp_all

lemma arg_records_set_arg:
  "arg_records (map (set_arg n) args) = map (\<lambda>r. r\<lparr>timestamp := n\<rparr>) (arg_records args)"
  by (induction args rule: arg_records.induct) simp_all

lemma records_of_set_time:
  "records_of (map (set_time n) es) = map (\<lambda>r. r\<lparr>timestamp := n\<rparr>) (records_of es)"
  by (induction es rule: records_of.induct) (simp_all add: arg_records_set_arg)

lemma records_of_stamped:
  assumes "map (set_time n) es = es" and "r \<in> set (records_of es)"
  shows "timestamp r = n"
proof -
  have "records_of es = map (\<lambda>r. r\<lparr>timestamp := n\<rparr>) (records_of es)"
    using records_of_set_time [of n es] assms(1) by simp
  then have "r \<in> set (map (\<lambda>r. r\<lparr>timestamp := n\<rparr>) (records_of es))"
    using assms(2) by simp
  then show ?thesis by auto
qed

subsection \<open>The callback after the answer of the SDK\<close>

lemma post_stripe_thrown:
  assumes "ce now (body req) (headers req ''stripe-signature'') (env ''STRIPE_WEBHOOK_SECRET'')
             = Inl err"
  shows "post_stripe ce env now req st =
           (Some \<lparr>status_code = 400, content = Send (''Webhook Error: '' @ message err)\<rparr>,
            \<lparr>console = console st @
               [LogError [Str (cross_mark @ '' Webhook signature verification failed: ''
                                 @ message err)]],
             invoked = invoked st\<rparr>)"
  using assms
  by (cases st) (simp add: post_stripe_def verify_step_def webhook_error_def console_error_def)

lemma post_stripe_unprintable:
  assumes "ce now (body req) (headers req ''stripe-signature'') (env ''STRIPE_WEBHOOK_SECRET'')
             = Inr event"
    and "interp event ''type'' = Inl err"
  shows "fst (post_stripe ce env now req st) =
           Some \<lparr>status_code = 400, content = Send (''Webhook Error: '' @ message err)\<rparr>"
  using assms
  by (simp add: post_stripe_def verify_step_def webhook_error_def)

lemma post_stripe_accepted:
  assumes accepted: "ce now (body req) (headers req ''stripe-signature'')
                       (env ''STRIPE_WEBHOOK_SECRET'') = Inr event"
    and ty: "get_prop event ''type'' = Inr t"
    and printed: "to_string t = Inr tname"
  shows "post_stripe ce env now req st =
     (if handler_for t = DefaultArm then
        (Some \<lparr>status_code = 200, content = Json (JObj [(''received'', JBool True)])\<rparr>,
         \<lparr>console = console st @
            [Log [Str (check_mark @ '' Webhook signature verified: '' @ tname)],
             Log [Str (bell @ '' Unhandled event type: '' @ tname)]],
          invoked = invoked st @ [DefaultArm]\<rparr>)
      else
        (case and_then (get_prop event ''data'') (\<lambda>d. get_prop d ''object'') of
           Inl e \<Rightarrow>
             (Some \<lparr>status_code = 500,
                    content = Json (JObj [(''error'', JStr ''Webhook handler failed'')])\<rparr>,
              \<lparr>console = console st @
                 [Log [Str (check_mark @ '' Webhook signature verified: '' @ tname)],
                  LogError [Str (cross_mark @ '' Error handling webhook event '' @ tname @ '':''),
                            InspectError e]],
               invoked = invoked st\<rparr>)
         | Inr arg \<Rightarrow>
             (case handler_body now (handler_for t) arg start of
                (Inr u, d) \<Rightarrow>
                  (Some \<lparr>status_code = 200,
                         content = Json (JObj [(''received'', JBool True)])\<rparr>,
                   \<lparr>console = console st @
                      Log [Str (check_mark @ '' Webhook signature verified: '' @ tname)]
                      # console d,
                    invoked = invoked st @ [handler_for t]\<rparr>)
              | (Inl e, d) \<Rightarrow>
                  (Some \<lparr>status_code = 500,
                         content = Json (JObj [(''error'', JStr ''Webhook handler failed'')])\<rparr>,
                   \<lparr>console = console st @
                      Log [Str (check_mark @ '' Webhook signature verified: '' @ tname)]
                      # console d @
                      [LogError [Str (cross_mark @ '' Error handling webhook event '' @ tname
                                        @ '':''),
                                 InspectError e]],
                    invoked = invoked st @ [handler_for t]\<rparr>))))"
proof -
  let ?line = "Log [Str (check_mark @ '' Webhook signature verified: '' @ tname)]"
  define st1 where "st1 = \<lparr>console = console st @ [?line], invoked = invoked st\<rparr>"
  have tn: "interp event ''type'' = Inr tname"
    using ty printed by (simp add: interp_def and_then_def)
  have v: "verify_step ce now (body req) (headers req ''stripe-signature'')
             (env ''STRIPE_WEBHOOK_SECRET'') st = (Inr event, st1)"
    using accepted tn by (cases st) (simp add: verify_step_def console_log_def st1_def)
  show ?thesis
  proof (cases "handler_for t = DefaultArm")
    case True
    have "dispatch event now st1 =
            (Inr (), \<lparr>console = console st @ [?line, Log [Str (bell @ '' Unhandled event type: ''
                                                             @ tname)]],
                      invoked = invoked st @ [DefaultArm]\<rparr>)"
      using True tn
      by (simp add: dispatch_registry [OF ty] default_arm_def log_template_def enter_def
            console_log_def st1_def)
    with v True show ?thesis
      by (simp add: post_stripe_def received_def)
  next
    case False
    show ?thesis
    proof (cases "and_then (get_prop event ''data'') (\<lambda>d. get_prop d ''object'')")
      case (Inl e)
      then have "dispatch event now st1 = (Inl e, st1)"
        using False by (simp add: dispatch_registry [OF ty] call_handler_def)
      with v False Inl tn show ?thesis
        by (simp add: post_stripe_def handler_failed_def template_colon console_error_def
              st1_def)
    next
      case (Inr arg)
      let ?h = "handler_for t"
      obtain r d where run: "handler_body now ?h arg start = (r, d)"
        by (cases "handler_body now ?h arg start")
      have quiet: "invoked d = []"
        using keepsD [OF keeps_handler_body, of now ?h arg start] run by (simp add: start_def)
      have "handler_body now ?h arg (enter ?h st1) = (r, grow (enter ?h st1) d)"
        using uniformD [OF uniform_handler_body, of now ?h arg "enter ?h st1"] run by simp
      then have d1: "dispatch event now st1 =
          (r, \<lparr>console = console st @ ?line # console d, invoked = invoked st @ [?h]\<rparr>)"
        using False Inr
        by (simp add: dispatch_registry [OF ty] call_handler_def grow_def enter_def quiet
              st1_def)
      show ?thesis
        using v False Inr run d1 tn
        by (cases r)
           (simp_all add: post_stripe_def received_def handler_failed_def template_colon
              console_error_def)
    qed
  qed
qed

lemma accepted_response:
  assumes accepted: "ce now (body req) (headers req ''stripe-signature'')
                       (env ''STRIPE_WEBHOOK_SECRET'') = Inr event"
    and tn: "interp event ''type'' = Inr tname"
  shows "fst (post_stripe ce env now req st) =
           Some (case handler_outcome event now of
                   Inr u \<Rightarrow>
                     \<lparr>status_code = 200,
                      content = Json (JObj [(''received'', JBool True)])\<rparr>
                 | Inl error \<Rightarrow>
                     \<lparr>status_code = 500,
                      content = Json (JObj [(''error'', JStr ''Webhook handler failed'')])\<rparr>)"
proof -
  obtain t where ty: "get_prop event ''type'' = Inr t" and printed: "to_string t = Inr tname"
    using tn by (auto simp: interp_def and_then_def split: sum.splits)
  show ?thesis
  proof (cases "handler_for t = DefaultArm")
    case True
    then show ?thesis
      by (simp add: post_stripe_accepted [where ce = ce and env = env and req = req and now = now, OF accepted ty printed] handler_outcome_def ty)
  next
    case False
    show ?thesis
    proof (cases "and_then (get_prop event ''data'') (\<lambda>d. get_prop d ''object'')")
      case (Inl e)
      with False show ?thesis
        by (simp add: post_stripe_accepted [where ce = ce and env = env and req = req and now = now, OF accepted ty printed] handler_outcome_def ty)
    next
      case (Inr arg)
      obtain r d where run: "handler_body now (handler_for t) arg start = (r, d)"
        by (cases "handler_body now (handler_for t) arg start")
      with False Inr show ?thesis
        by (cases r)
           (simp_all add: post_stripe_accepted [where ce = ce and env = env and req = req and now = now, OF accepted ty printed] handler_outcome_def ty)
    qed
  qed
qed

subsection \<open>Two deliveries of one envelope\<close>

lemma accepted_canonical:
  assumes "ce now (body req) (headers req ''stripe-signature'') (env ''STRIPE_WEBHOOK_SECRET'')
             = Inr event"
  shows "post_stripe ce env now req st =
           post_stripe (\<lambda>n (b :: unit) s k. Inr event) Map.empty now
             \<lparr>headers = Map.empty, body = ()\<rparr> st"
  using assms by (simp add: post_stripe_def verify_step_def)

lemma two_deliveries:
  assumes first: "ce early (body req) (headers req ''stripe-signature'')
                    (env ''STRIPE_WEBHOOK_SECRET'') = Inr event"
    and again: "ce late (body req') (headers req' ''stripe-signature'')
                  (env ''STRIPE_WEBHOOK_SECRET'') = Inr event"
  shows "\<exists>out. out \<noteq> []
       \<and> console (snd (post_stripe ce env early req st)) = console st @ out
       \<and> console (snd (post_stripe ce env late req' (snd (post_stripe ce env early req st))))
           = console st @ out @ map (set_time late) out
       \<and> map (set_time early) out = out
       \<and> fst (post_stripe ce env late req' (snd (post_stripe ce env early req st)))
           = fst (post_stripe ce env early req st)"
proof -
  let ?run = "\<lambda>n. post_stripe (\<lambda>n (b :: unit) s k. Inr event) Map.empty n
                     \<lparr>headers = Map.empty, body = ()\<rparr>"
  let ?out = "console (snd (?run early start))"
  have one: "post_stripe ce env early req st = (fst (?run early start), grow st (snd (?run early start)))"
    unfolding accepted_canonical [where ce = ce and env = env and req = req and now = early, OF first]
    by (rule post_stripe_uniform)
  have two: "post_stripe ce env late req' s = (fst (?run late start), grow s (snd (?run late start)))"
    for s
    unfolding accepted_canonical [where ce = ce and env = env and req = req' and now = late, OF again]
    by (rule post_stripe_uniform)
  have alike: "fst (?run late start) = fst (?run early start)"
      "map (set_time late) (console (snd (?run late start))) = map (set_time late) ?out"
    using post_stripe_alike
            [where ce = "\<lambda>n (b :: unit) s k. Inr event" and now = late and now' = early
               and st = start and n = late]
    by simp_all
  have late: "map (set_time late) (console (snd (?run late start))) = console (snd (?run late start))"
    by (rule post_stripe_stamps) (simp add: start_def)
  have early: "map (set_time early) ?out = ?out"
    by (rule post_stripe_stamps) (simp add: start_def)
  have nonempty: "?out \<noteq> []"
    by (rule post_stripe_logs)
  have c1: "console (snd (post_stripe ce env early req st)) = console st @ ?out"
    by (subst one) simp
  have c2: "console (snd (post_stripe ce env late req' (snd (post_stripe ce env early req st))))
              = console st @ ?out @ map (set_time late) ?out"
    by (subst two) (simp add: c1 alike(2) [symmetric] late)
  have r: "fst (post_stripe ce env late req' (snd (post_stripe ce env early req st)))
             = fst (post_stripe ce env early req st)"
    by (subst two, subst (2) one) (simp add: alike)
  show ?thesis
    using nonempty c1 c2 early r by blast
qed

section \<open>The responses to a POST\<close>

text \<open>
  C1, as amended. Every \<^verbatim>\<open>POST /webhooks/stripe\<close> gets a response, and it is one of four.
  When the body parser hands an error to \<^verbatim>\<open>next\<close> (as for a body over its size limit),
  the callback does not run and the error middleware of \<^verbatim>\<open>server.js\<close> answers status 500
  with \<^verbatim>\<open>{"error": "Internal server error", "message": ...}\<close>. Otherwise the callback
  runs on the body that the parser left, and answers status 400 with the text
  \<^verbatim>\<open>Webhook Error: \<close> followed by the message when the SDK call throws (or the log line
  after it cannot print the type of the event), status 200 with \<^verbatim>\<open>{"received": true}\<close>
  when the SDK call returns an event and the one handler call that the registry prescribes
  for it succeeds, and status 500 with \<^verbatim>\<open>{"error": "Webhook handler failed"}\<close> when that
  call throws.
\<close>

theorem webhook_post_four_outcomes:
  "\<exists>r. fst (app_post_webhooks_stripe raw ce env now w st) = Some r \<and>
     (case raw w of
        Inl refused \<Rightarrow>
          r = \<lparr>status_code = 500,
                content = Json (JObj
                  [(''error'', JStr ''Internal server error''),
                   (''message'',
                    JStr (if env ''NODE_ENV'' = Some ''development'' then message refused
                          else ''Something went wrong''))])\<rparr>
      | Inr b \<Rightarrow>
          (case ce now b (header_fields w ''stripe-signature'') (env ''STRIPE_WEBHOOK_SECRET'') of
             Inl err \<Rightarrow>
               r = \<lparr>status_code = 400, content = Send (''Webhook Error: '' @ message err)\<rparr>
           | Inr event \<Rightarrow>
               (case interp event ''type'' of
                  Inl err \<Rightarrow>
                    r = \<lparr>status_code = 400,
                          content = Send (''Webhook Error: '' @ message err)\<rparr>
                | Inr tname \<Rightarrow>
                    (case handler_outcome event now of
                       Inr u \<Rightarrow>
                         r = \<lparr>status_code = 200,
                               content = Json (JObj [(''received'', JBool True)])\<rparr>
                     | Inl error \<Rightarrow>
                         r = \<lparr>status_code = 500,
                               content = Json (JObj
                                 [(''error'', JStr ''Webhook handler failed'')])\<rparr>))))"
proof (cases "raw w")
  case (Inl refused)
  then show ?thesis
    by (simp add: app_post_webhooks_stripe_def error_middleware_def internal_error_def)
next
  case b: (Inr b)
  let ?req = "\<lparr>headers = header_fields w, body = b\<rparr>"
  have app: "app_post_webhooks_stripe raw ce env now w st = post_stripe ce env now ?req st"
    using b by (simp add: app_post_webhooks_stripe_def)
  show ?thesis
  proof (cases "ce now b (header_fields w ''stripe-signature'') (env ''STRIPE_WEBHOOK_SECRET'')")
    case (Inl err)
    then have "fst (post_stripe ce env now ?req st) =
        Some \<lparr>status_code = 400, content = Send (''Webhook Error: '' @ message err)\<rparr>"
      using post_stripe_thrown [where ce = ce and env = env and now = now and req = ?req
                                  and err = err and st = st]
      by simp
    with b Inl app show ?thesis by simp
  next
    case ev: (Inr event)
    then have accepted: "ce now (body ?req) (headers ?req ''stripe-signature'')
                           (env ''STRIPE_WEBHOOK_SECRET'') = Inr event"
      by simp
    show ?thesis
    proof (cases "interp event ''type''")
      case (Inl err)
      have "fst (post_stripe ce env now ?req st) =
          Some \<lparr>status_code = 400, content = Send (''Webhook Error: '' @ message err)\<rparr>"
        using post_stripe_unprintable
                [where ce = ce and env = env and now = now and req = ?req, OF accepted Inl] .
      with b ev Inl app show ?thesis by simp
    next
      case (Inr tname)
      note resp = accepted_response
                [where ce = ce and env = env and now = now and req = ?req and st = st,
                 OF accepted Inr]
      show ?thesis
        using b ev Inr app resp by (cases "handler_outcome event now") simp_all
    qed
  qed
qed

text \<open>The theorem at a signed delivery of a checkout event: status 200.\<close>

theorem webhook_post_four_outcomes_witness:
  "fst (app_post_webhooks_stripe test_raw (test_verifier checkout_event) test_env 0 signed_post
          start) =
     Some \<lparr>status_code = 200, content = Json (JObj [(''received'', JBool True)])\<rparr>"
  using webhook_post_four_outcomes
          [of test_raw "test_verifier checkout_event" test_env 0 signed_post start]
  by (simp add: example_defs run_defs checkout_event_def handleCheckoutSessionCompleted_def
        build_payment_record_def)

text \<open>
  C1 as stated fails: a signed request whose body has 102401 bytes is refused by the body
  parser and answered by the error middleware with status 500 and a body that is none of
  the three of the claim.
\<close>

theorem oversize_post_counterexample:
  "fst (app_post_webhooks_stripe test_raw (test_verifier checkout_event) test_env 0
          oversize_post start) =
     Some \<lparr>status_code = 500,
            content = Json (JObj [(''error'', JStr ''Internal server error''),
                                  (''message'', JStr ''Something went wrong'')])\<rparr>"
  by (simp add: example_defs run_defs)

section \<open>Rejected requests\<close>

text \<open>
  C2. When the SDK call throws, the response is status 400 with the text
  \<^verbatim>\<open>Webhook Error: \<close> and the message, no handler is entered, and the only effect is the
  one line that the \<^verbatim>\<open>catch\<close> of line 19 writes with \<^verbatim>\<open>console.error\<close>: whatever the
  handlers have recorded so far is as it was.
\<close>

theorem rejected_request_runs_no_handler:
  assumes "constructEvent now (body req) (headers req ''stripe-signature'')
             (env ''STRIPE_WEBHOOK_SECRET'') = Inl err"
  shows "fst (post_stripe constructEvent env now req st) =
           Some \<lparr>status_code = 400, content = Send (''Webhook Error: '' @ message err)\<rparr>
       \<and> invoked (snd (post_stripe constructEvent env now req st)) = invoked st
       \<and> console (snd (post_stripe constructEvent env now req st)) =
           console st @
           [LogError [Str (cross_mark @ '' Webhook signature verification failed: ''
                             @ message err)]]"
  using assms
  by (simp add: post_stripe_def verify_step_def webhook_error_def console_error_def)

text \<open>The theorem at a request whose signature header does not match the secret.\<close>

theorem rejected_request_runs_no_handler_witness:
  "fst (post_stripe (test_verifier checkout_event) test_env 0 forged_request start) =
     Some \<lparr>status_code = 400,
            content = Send (''Webhook Error: No signatures found matching the expected ''
                            @ ''signature for payload.'')\<rparr>
   \<and> invoked (snd (post_stripe (test_verifier checkout_event) test_env 0 forged_request start))
       = []"
proof -
  have rejected:
    "test_verifier checkout_event 0 (body forged_request)
       (headers forged_request ''stripe-signature'') (test_env ''STRIPE_WEBHOOK_SECRET'')
     = Inl (StripeError ''No signatures found matching the expected signature for payload.'')"
    by (simp add: example_defs)
  show ?thesis
    using rejected_request_runs_no_handler
            [where constructEvent = "test_verifier checkout_event" and now = 0
               and req = forged_request and env = test_env and st = start, OF rejected]
    by (simp add: start_def)
qed

section \<open>Redelivery\<close>

text \<open>
  C3, as amended. The handlers keep nothing between deliveries and never read the id of
  the event. When the SDK call returns the same envelope for two deliveries, at the clock
  readings \<open>early\<close> and \<open>late\<close> and whatever the two requests, the second delivery sends
  the same response as the first and appends to the console the entries that the first
  appended, once more, with the timestamp of every logged payment record set to \<open>late\<close>;
  in the entries of the first delivery that timestamp is \<open>early\<close>. Every delivery appends
  at least one entry, so the console after two deliveries is never the console after one,
  and every payment record that the first delivery logs is logged again by the second,
  the same but for its timestamp.
\<close>

theorem redelivery_repeats_the_log:
  assumes first: "ce early (body req) (headers req ''stripe-signature'')
                    (env ''STRIPE_WEBHOOK_SECRET'') = Inr event"
    and again: "ce late (body req') (headers req' ''stripe-signature'')
                  (env ''STRIPE_WEBHOOK_SECRET'') = Inr event"
  shows "\<exists>out. out \<noteq> []
       \<and> console (snd (post_stripe ce env early req st)) = console st @ out
       \<and> console (snd (post_stripe ce env late req' (snd (post_stripe ce env early req st))))
           = console st @ out @ map (set_time late) out
       \<and> map (set_time early) out = out
       \<and> (\<forall>r \<in> set (records_of out). timestamp r = early)
       \<and> records_of (map (set_time late) out)
           = map (\<lambda>r. r\<lparr>timestamp := late\<rparr>) (records_of out)
       \<and> fst (post_stripe ce env late req' (snd (post_stripe ce env early req st)))
           = fst (post_stripe ce env early req st)"
proof -
  obtain out where out: "out \<noteq> []"
      "console (snd (post_stripe ce env early req st)) = console st @ out"
      "console (snd (post_stripe ce env late req' (snd (post_stripe ce env early req st))))
         = console st @ out @ map (set_time late) out"
      "map (set_time early) out = out"
      "fst (post_stripe ce env late req' (snd (post_stripe ce env early req st)))
         = fst (post_stripe ce env early req st)"
    using two_deliveries [where ce = ce and env = env and req = req and req' = req'
                            and early = early and late = late and st = st, OF first again]
    by blast
  have "\<forall>r \<in> set (records_of out). timestamp r = early"
    using records_of_stamped [OF out(4)] by blast
  with out records_of_set_time [of late out] show ?thesis by blast
qed

text \<open>
  The theorem at two deliveries of one checkout event, in two different requests, at the
  times 1000 and 2000.
\<close>

theorem redelivery_repeats_the_log_witness:
  "fst (post_stripe (test_verifier checkout_event) test_env 2000
          (signed_request\<lparr>body := ''{... }''\<rparr>)
          (snd (post_stripe (test_verifier checkout_event) test_env 1000 signed_request start)))
     = fst (post_stripe (test_verifier checkout_event) test_env 1000 signed_request start)"
proof -
  let ?again = "signed_request\<lparr>body := ''{... }''\<rparr>"
  have first:
    "test_verifier checkout_event 1000 (body signed_request)
       (headers signed_request ''stripe-signature'') (test_env ''STRIPE_WEBHOOK_SECRET'')
     = Inr checkout_event"
    by (simp add: example_defs)
  have again:
    "test_verifier checkout_event 2000 (body ?again)
       (headers ?again ''stripe-signature'') (test_env ''STRIPE_WEBHOOK_SECRET'')
     = Inr checkout_event"
    by (simp add: example_defs)
  show ?thesis
    using redelivery_repeats_the_log
            [where ce = "test_verifier checkout_event" and env = test_env
               and req = signed_request and req' = ?again and early = 1000 and late = 2000
               and st = start, OF first again]
    by blast
qed

text \<open>
  C3 as stated fails: after two deliveries of one checkout envelope the console holds two
  payment records, and they differ (in their timestamps).
\<close>

theorem redelivery_counterexample:
  "records_of (console (snd
     (post_stripe (test_verifier checkout_event) test_env 2000 signed_request
        (snd (post_stripe (test_verifier checkout_event) test_env 1000 signed_request start)))))
   = [\<lparr>sessionId = JStr ''cs_1'', customerEmail = JStr ''a@b.example'',
       amount = JNum ''2500'', currency = JStr ''usd'', status = ''completed'',
       metadata = JObj [(''plan'', JStr ''pro'')], timestamp = 1000\<rparr>,
      \<lparr>sessionId = JStr ''cs_1'', customerEmail = JStr ''a@b.example'',
       amount = JNum ''2500'', currency = JStr ''usd'', status = ''completed'',
       metadata = JObj [(''plan'', JStr ''pro'')], timestamp = 2000\<rparr>]"
  by (simp add: example_defs run_defs checkout_event_def handleCheckoutSessionCompleted_def
        build_payment_record_def)

section \<open>A succeeded payment intent\<close>

text \<open>
  C4, as amended. When the SDK call accepts the request and returns an event of type
  \<^verbatim>\<open>payment_intent.succeeded\<close> whose payload has id \<^verbatim>\<open>pi_1\<close>, amount 5000 and currency
  \<^verbatim>\<open>usd\<close>, the response is status 200 with \<^verbatim>\<open>{"received": true}\<close>, the handler
  \<^verbatim>\<open>handlePaymentIntentSucceeded\<close> is the only one entered, and all that the delivery
  does is write three lines of text to the console: the line of the verification,
  \<^verbatim>\<open>Payment intent succeeded: pi_1\<close> and \<^verbatim>\<open>Amount: 5000 usd\<close>. No record is built or
  stored: the source has no sink, and where the handler would update one it has a
  \<^verbatim>\<open>TODO\<close> (line 116).
\<close>

theorem payment_intent_succeeded_only_logged:
  assumes verified: "constructEvent now (body req) (headers req ''stripe-signature'')
                       (env ''STRIPE_WEBHOOK_SECRET'') = Inr event"
    and ty: "get_prop event ''type'' = Inr (JStr ''payment_intent.succeeded'')"
    and payload: "and_then (get_prop event ''data'') (\<lambda>d. get_prop d ''object'') = Inr intent"
    and fields: "get_prop intent ''id'' = Inr (JStr ''pi_1'')"
                "get_prop intent ''amount'' = Inr (JNum ''5000'')"
                "get_prop intent ''currency'' = Inr (JStr ''usd'')"
  shows "post_stripe constructEvent env now req st =
           (Some \<lparr>status_code = 200, content = Json (JObj [(''received'', JBool True)])\<rparr>,
            \<lparr>console = console st @
               [Log [Str (check_mark @ '' Webhook signature verified: payment_intent.succeeded'')],
                Log [Str (check_mark @ '' Payment intent succeeded: pi_1'')],
                Log [Str (banknote @ '' Amount: 5000 usd'')]],
             invoked = invoked st @ [PaymentIntentSucceeded]\<rparr>)
       \<and> records_of (console (snd (post_stripe constructEvent env now req st)))
           = records_of (console st)"
proof -
  have run: "post_stripe constructEvent env now req st =
           (Some \<lparr>status_code = 200, content = Json (JObj [(''received'', JBool True)])\<rparr>,
            \<lparr>console = console st @
               [Log [Str (check_mark @ '' Webhook signature verified: payment_intent.succeeded'')],
                Log [Str (check_mark @ '' Payment intent succeeded: pi_1'')],
                Log [Str (banknote @ '' Amount: 5000 usd'')]],
             invoked = invoked st @ [PaymentIntentSucceeded]\<rparr>)"
    using assms
    by (simp add: post_stripe_def verify_step_def interp_def and_then_def dispatch_def
          call_handler_def handlePaymentIntentSucceeded_def log_template_def console_log_def
          enter_def received_def)
  then show ?thesis
    by (simp add: records_of_append)
qed

text \<open>The theorem at the signed delivery of that event, from the empty state.\<close>

theorem payment_intent_succeeded_only_logged_witness:
  "post_stripe (test_verifier payment_intent_event) test_env 0 signed_request start =
     (Some \<lparr>status_code = 200, content = Json (JObj [(''received'', JBool True)])\<rparr>,
      \<lparr>console =
         [Log [Str (check_mark @ '' Webhook signature verified: payment_intent.succeeded'')],
          Log [Str (check_mark @ '' Payment intent succeeded: pi_1'')],
          Log [Str (banknote @ '' Amount: 5000 usd'')]],
       invoked = [PaymentIntentSucceeded]\<rparr>)"
proof -
  let ?intent = "JObj [(''id'', JStr ''pi_1''), (''amount'', JNum ''5000''),
                       (''currency'', JStr ''usd'')]"
  have verified:
    "test_verifier payment_intent_event 0 (body signed_request)
       (headers signed_request ''stripe-signature'') (test_env ''STRIPE_WEBHOOK_SECRET'')
     = Inr payment_intent_event"
    by (simp add: example_defs)
  have ty: "get_prop payment_intent_event ''type'' = Inr (JStr ''payment_intent.succeeded'')"
    by (simp add: payment_intent_event_def envelope_def)
  have payload:
    "and_then (get_prop payment_intent_event ''data'') (\<lambda>d. get_prop d ''object'') = Inr ?intent"
    by (simp add: payment_intent_event_def envelope_def and_then_def)
  have fields: "get_prop ?intent ''id'' = Inr (JStr ''pi_1'')"
    "get_prop ?intent ''amount'' = Inr (JNum ''5000'')"
    "get_prop ?intent ''currency'' = Inr (JStr ''usd'')"
    by simp_all
  show ?thesis
    using payment_intent_succeeded_only_logged
            [where constructEvent = "test_verifier payment_intent_event" and now = 0
               and req = signed_request and env = test_env and st = start,
             OF verified ty payload fields]
    by (simp add: start_def)
qed

text \<open>
  C4 as stated fails in its last part: after the delivery of the claim the console, which
  is all that the delivery can change, holds three lines of text and no record.
\<close>

theorem payment_intent_not_recorded_counterexample:
  "records_of (console (snd
     (post_stripe (test_verifier payment_intent_event) test_env 0 signed_request start))) = []
   \<and> console (snd
         (post_stripe (test_verifier payment_intent_event) test_env 0 signed_request start))
     = [Log [Str (check_mark @ '' Webhook signature verified: payment_intent.succeeded'')],
        Log [Str (check_mark @ '' Payment intent succeeded: pi_1'')],
        Log [Str (banknote @ '' Amount: 5000 usd'')]]"
  by (simp add: example_defs run_defs payment_intent_event_def handlePaymentIntentSucceeded_def)

section \<open>Unrecognized event types\<close>

text \<open>
  C5. When the SDK call accepts the request and returns an event whose type is none of
  the eight recognized strings (and can be printed, as every string can), the default arm
  runs and no handler function: the response is status 200 with \<^verbatim>\<open>{"received": true}\<close>,
  and the only effect is the log line of the verification and the log line of the default
  arm, whatever the payload.
\<close>

theorem unknown_event_type_only_logged:
  assumes verified: "constructEvent now (body req) (headers req ''stripe-signature'')
                       (env ''STRIPE_WEBHOOK_SECRET'') = Inr event"
    and ty: "get_prop event ''type'' = Inr t"
    and printed: "to_string t = Inr tname"
    and unknown: "t \<notin> JStr ` set recognized"
  shows "post_stripe constructEvent env now req st =
           (Some \<lparr>status_code = 200, content = Json (JObj [(''received'', JBool True)])\<rparr>,
            \<lparr>console = console st @
               [Log [Str (check_mark @ '' Webhook signature verified: '' @ tname)],
                Log [Str (bell @ '' Unhandled event type: '' @ tname)]],
             invoked = invoked st @ [DefaultArm]\<rparr>)"
  using assms
  by (simp add: post_stripe_def verify_step_def interp_def and_then_def dispatch_def
        default_arm_def log_template_def console_log_def
        enter_def received_def recognized_def registry_def)

text \<open>The theorem at a signed delivery of an event of type \<^verbatim>\<open>charge.refunded\<close>.\<close>

theorem unknown_event_type_only_logged_witness:
  "post_stripe (test_verifier unknown_event) test_env 0 signed_request start =
     (Some \<lparr>status_code = 200, content = Json (JObj [(''received'', JBool True)])\<rparr>,
      \<lparr>console =
         [Log [Str (check_mark @ '' Webhook signature verified: charge.refunded'')],
          Log [Str (bell @ '' Unhandled event type: charge.refunded'')]],
       invoked = [DefaultArm]\<rparr>)"
proof -
  have verified:
    "test_verifier unknown_event 0 (body signed_request)
       (headers signed_request ''stripe-signature'') (test_env ''STRIPE_WEBHOOK_SECRET'')
     = Inr unknown_event"
    by (simp add: example_defs)
  have ty: "get_prop unknown_event ''type'' = Inr (JStr ''charge.refunded'')"
    by (simp add: unknown_event_def envelope_def)
  have printed: "to_string (JStr ''charge.refunded'') = Inr ''charge.refunded''"
    by simp
  have unknown: "JStr ''charge.refunded'' \<notin> JStr ` set recognized"
    by (simp add: recognized_def registry_def)
  show ?thesis
    using unknown_event_type_only_logged
            [where constructEvent = "test_verifier unknown_event" and now = 0
               and req = signed_request and env = test_env and st = start,
             OF verified ty printed unknown]
    by (simp add: start_def)
qed

section \<open>One handler for each event\<close>




section \<open>A request without the signature header\<close>




section \<open>When the handlers succeed\<close>

text \<open>
  C9, as amended. The eight handlers only log, but they are not total: each reads
  properties of \<^verbatim>\<open>event.data.object\<close> and converts them to strings. For every event that
  passed the verification block, if its type goes to the default arm, or if its
  \<^verbatim>\<open>data.object\<close> is present (neither \<^verbatim>\<open>null\<close> nor \<^verbatim>\<open>undefined\<close>) and holds no object
  with an own property named \<^verbatim>\<open>toString\<close>, the dispatch does not throw and the response
  is status 200 with \<^verbatim>\<open>{"received": true}\<close>.
\<close>

theorem handlers_succeed_on_plain_payloads:
  assumes verified: "verify_step ce now (body req) (headers req ''stripe-signature'')
                       (env ''STRIPE_WEBHOOK_SECRET'') st = (Inr event, st1)"
    and ty: "get_prop event ''type'' = Inr t"
    and payload: "handler_for t = DefaultArm \<or>
                  (\<exists>p. and_then (get_prop event ''data'') (\<lambda>d. get_prop d ''object'') = Inr p
                       \<and> \<not> nullish p \<and> plain p)"
  shows "fst (post_stripe ce env now req st) =
           Some \<lparr>status_code = 200, content = Json (JObj [(''received'', JBool True)])\<rparr>"
proof -
  obtain tname where tname: "interp event ''type'' = Inr tname"
    using verify_step_InrD(2) [OF verified] by blast
  have "fst (dispatch event now st1) = Inr ()"
  proof (cases "handler_for t = DefaultArm")
    case True
    then show ?thesis
      by (simp add: dispatch_registry [OF ty] default_arm_def tname log_template_def)
  next
    case False
    with payload obtain p where
      "and_then (get_prop event ''data'') (\<lambda>d. get_prop d ''object'') = Inr p"
      "\<not> nullish p" "plain p"
      by blast
    with False show ?thesis
      by (simp add: dispatch_registry [OF ty] call_handler_def handler_body_plain)
  qed
  then show ?thesis
    using verified by (cases "dispatch event now st1") (simp add: post_stripe_def received_def)
qed

text \<open>The theorem at a signed delivery of a subscription update.\<close>

theorem handlers_succeed_on_plain_payloads_witness:
  "fst (post_stripe (test_verifier subscription_event) test_env 0 signed_request start) =
     Some \<lparr>status_code = 200, content = Json (JObj [(''received'', JBool True)])\<rparr>"
proof -
  let ?st1 = "console_log
      [Str (check_mark @ '' Webhook signature verified: customer.subscription.updated'')] start"
  let ?t = "JStr ''customer.subscription.updated''"
  let ?p = "JObj [(''id'', JStr ''sub_1''), (''customer'', JStr ''cus_1''),
                  (''status'', JStr ''active''),
                  (''items'', JArr [JObj [(''id'', JStr ''si_1'')]])]"
  have verified:
    "verify_step (test_verifier subscription_event) 0 (body signed_request)
       (headers signed_request ''stripe-signature'') (test_env ''STRIPE_WEBHOOK_SECRET'') start
     = (Inr subscription_event, ?st1)"
    by (simp add: example_defs verify_step_def subscription_event_def interp_def and_then_def)
  have ty: "get_prop subscription_event ''type'' = Inr ?t"
    by (simp add: subscription_event_def envelope_def)
  have payload: "handler_for ?t = DefaultArm \<or>
      (\<exists>p. and_then (get_prop subscription_event ''data'') (\<lambda>d. get_prop d ''object'') = Inr p
           \<and> \<not> nullish p \<and> plain p)"
    by (simp add: subscription_event_def envelope_def and_then_def nullish_def)
  show ?thesis
    using handlers_succeed_on_plain_payloads
            [where ce = "test_verifier subscription_event" and now = 0
               and req = signed_request and env = test_env and st = start,
             OF verified ty payload] .
qed

text \<open>
  C9 as stated fails: a signed event of type \<^verbatim>\<open>payment_intent.succeeded\<close> whose
  \<^verbatim>\<open>data\<close> has no \<^verbatim>\<open>object\<close> passes the verification, its handler throws on reading
  \<^verbatim>\<open>id\<close> of \<^verbatim>\<open>undefined\<close>, and the response is status 500.
\<close>

theorem payment_intent_no_object_counterexample:
  "fst (post_stripe (test_verifier payment_intent_event_no_object) test_env 0 signed_request
          start)
     = Some \<lparr>status_code = 500,
             content = Json (JObj [(''error'', JStr ''Webhook handler failed'')])\<rparr>"
  by (simp add: example_defs run_defs payment_intent_event_no_object_def
        handlePaymentIntentSucceeded_def)

end
